theory Spec2Isabelle
  imports Complex_Main
begin

section \<open>Data model of the time tracker\<close>

text \<open>
  Python failures are values.  \<open>IndexError\<close> is what \<open>list.pop()\<close> on an empty list and
  \<open>xs[-1]\<close> on an empty list raise (the specification's name for it, when it comes
  from \<open>_exit\<close>, is UnbalancedStackError); \<open>AttributeError\<close> is what reading a missing
  attribute raises, and carries the attribute's name; \<open>Exception\<close> stands for every
  failure raised by user code, identified by its message.
\<close>

datatype exn = IndexError string | AttributeError string | Exception string

text \<open>
  The dictionary that \<open>_exit\<close> hands to \<open>logger.log\<close>.  The keys are the source's keys.
  Argument values are opaque: the type \<open>'v\<close>.  Python floats are idealised as reals: the
  development is about which values are subtracted and added, not about rounding.
\<close>

record 'v message =
  function_name :: string
  args :: "'v list"
  kwargs :: "(string \<times> 'v) list"
  total_time :: real
  partial_time :: real

text \<open>
  The part of the Python process the tracker touches.
  \<^item> \<open>heap\<close>: the list objects, addressed by their index.  The two lists of a tracker are
    shared, mutable objects, so they live in a store and a tracker holds their addresses.
  \<^item> \<open>clock\<close>, \<open>reads\<close>: the wall clock as an oracle.  The \<open>n\<close>-th call of \<open>time.time()\<close>
    of the run returns \<open>clock n\<close>; \<open>reads\<close> counts the calls made so far.
  \<^item> \<open>logged\<close>: the records handed to \<open>logger.log\<close> so far, oldest first.
\<close>

record 'v world =
  heap :: "real list list"
  clock :: "nat \<Rightarrow> real"
  reads :: nat
  logged :: "'v message list"

type_synonym 'v logger = "'v world \<Rightarrow> 'v message \<Rightarrow> exn option"

text \<open>
  A \<open>TimeTracker\<close> object.  The logger is an injected collaborator: what its \<open>log\<close> does
  with a record is its own business, so it is modelled by its outcome alone, \<open>None\<close> for a
  normal return and \<open>Some e\<close> when it raises \<open>e\<close>.  The outcome may depend on the record and
  on the world in which \<open>log\<close> is called; the logger holds no reference to the tracker's
  lists and does not change them.
\<close>

record 'v TimeTracker =
  logger :: "'v logger"
  do_time_tracking :: bool
  entering_times :: nat
  total_times :: nat

text \<open>
  A Python callable: its \<open>__name__\<close>, when it has one (a \<open>functools.partial\<close> object or
  an instance with \<open>__call__\<close> has none), and what calling it does.
\<close>

record 'v callable =
  name :: "string option"
  call :: "'v list \<Rightarrow> (string \<times> 'v) list \<Rightarrow> 'v world \<Rightarrow> (exn + 'v) \<times> 'v world"

subsection \<open>Python primitives used by the tracker\<close>

text \<open>\<open>xs.append(x)\<close> on the list object at address \<open>a\<close>.\<close>

definition list_append :: "nat \<Rightarrow> real \<Rightarrow> 'v world \<Rightarrow> 'v world" where
  "list_append a x w = w\<lparr>heap := (heap w)[a := heap w ! a @ [x]]\<rparr>"

text \<open>\<open>xs.pop()\<close>: raises on the empty list and changes nothing then.\<close>

definition list_pop :: "nat \<Rightarrow> 'v world \<Rightarrow> exn + (real \<times> 'v world)" where
  "list_pop a w =
     (if heap w ! a = [] then Inl (IndexError ''pop from empty list'')
      else Inr (last (heap w ! a), w\<lparr>heap := (heap w)[a := butlast (heap w ! a)]\<rparr>))"

text \<open>\<open>xs[-1] += v\<close>: raises on the empty list and changes nothing then.\<close>

definition list_iadd_last :: "nat \<Rightarrow> real \<Rightarrow> 'v world \<Rightarrow> exn + 'v world" where
  "list_iadd_last a v w =
     (let xs = heap w ! a in
      if xs = [] then Inl (IndexError ''list index out of range'')
      else Inr (w\<lparr>heap := (heap w)[a := xs[length xs - 1 := xs ! (length xs - 1) + v]]\<rparr>))"

text \<open>\<open>time.time()\<close>: the next reading of the clock.\<close>

definition time_time :: "'v world \<Rightarrow> real \<times> 'v world" where
  "time_time w = (clock w (reads w), w\<lparr>reads := Suc (reads w)\<rparr>)"

text \<open>
  \<open>self._logger.log(m)\<close>: the call is recorded in \<open>logged\<close>, and it returns or raises as the
  logger decides.
\<close>

definition logger_log :: "'v logger \<Rightarrow> 'v message \<Rightarrow> 'v world \<Rightarrow> (exn + unit) \<times> 'v world" where
  "logger_log lg m w =
     (case lg w m of None \<Rightarrow> Inr () | Some e \<Rightarrow> Inl e, w\<lparr>logged := logged w @ [m]\<rparr>)"

subsection \<open>Module state and the constructor\<close>

text \<open>
  The two module-level lists \<open>_time_tracker_global_entering_times = []\<close> and
  \<open>_time_tracker_global_total_times = [0]\<close> are the first two objects of the store.
\<close>

definition time_tracker_global_entering_times :: nat where
  "time_tracker_global_entering_times = 0"

definition time_tracker_global_total_times :: nat where
  "time_tracker_global_total_times = 1"

definition module_init :: "(nat \<Rightarrow> real) \<Rightarrow> 'v world" where
  "module_init c = \<lparr>heap = [[], [0]], clock = c, reads = 0, logged = []\<rparr>"

text \<open>\<open>TimeTracker.__init__\<close>: an isolated tracker allocates two new lists.\<close>

definition init :: "'v logger \<Rightarrow> bool \<Rightarrow> bool \<Rightarrow> 'v world \<Rightarrow> 'v TimeTracker \<times> 'v world" where
  "init lg dtt isolated w =
     (if isolated then
        (\<lparr>logger = lg, do_time_tracking = dtt,
          entering_times = length (heap w), total_times = Suc (length (heap w))\<rparr>,
         w\<lparr>heap := heap w @ [[], [0]]\<rparr>)
      else
        (\<lparr>logger = lg, do_time_tracking = dtt,
          entering_times = time_tracker_global_entering_times,
          total_times = time_tracker_global_total_times\<rparr>,
         w))"

subsection \<open>The tracker's operations\<close>

text \<open>\<open>TimeTracker._enter\<close>.\<close>

definition enter :: "'v TimeTracker \<Rightarrow> 'v world \<Rightarrow> 'v world" where
  "enter self w =
     (let (now, w1) = time_time w;
          w2 = list_append (entering_times self) now w1
      in list_append (total_times self) 0 w2)"

text \<open>
  \<open>TimeTracker._exit\<close>.  Each statement that can raise is a branch; the world returned
  with a failure is the world at the moment it was raised.  The parameters \<open>function_name\<close>,
  \<open>args\<close>, \<open>kwargs\<close> and the locals \<open>total_time\<close>, \<open>partial_time\<close> of the source are
  \<open>fn_name\<close>, \<open>pos\<close>, \<open>kw\<close>, \<open>total\<close> and \<open>partial\<close> here, the source's names being
  the fields of the record.
\<close>

definition exit :: "'v TimeTracker \<Rightarrow> string \<Rightarrow> 'v list \<Rightarrow> (string \<times> 'v) list \<Rightarrow> 'v world
    \<Rightarrow> (exn + unit) \<times> 'v world" where
  "exit self fn_name pos kw w =
     (case list_pop (entering_times self) w of
        Inl e \<Rightarrow> (Inl e, w)
      | Inr (enter_time, w1) \<Rightarrow>
         (case list_pop (total_times self) w1 of
            Inl e \<Rightarrow> (Inl e, w1)
          | Inr (inner_total_time, w2) \<Rightarrow>
             (let (exit_time, w3) = time_time w2;
                  total = exit_time - enter_time;
                  partial = total - inner_total_time
              in case list_iadd_last (total_times self) total w3 of
                   Inl e \<Rightarrow> (Inl e, w3)
                 | Inr w4 \<Rightarrow>
                     logger_log (logger self)
                       \<lparr>function_name = fn_name, args = pos, kwargs = kw,
                        total_time = total, partial_time = partial\<rparr> w4)))"

text \<open>
  The inner function \<open>wrapped\<close> of \<open>time_track\<close>.  \<open>try ... finally\<close>: the \<open>finally\<close> block runs
  on both paths; a failure raised inside it replaces whatever was in flight; otherwise the
  pending failure is re-raised, or the result is returned.  The \<open>finally\<close> block first
  evaluates the argument \<open>function.__name__\<close>, which raises when the callable has no such
  attribute, and \<open>_exit\<close> is then not called.
\<close>

definition wrapped :: "'v TimeTracker \<Rightarrow> 'v callable \<Rightarrow> 'v list \<Rightarrow> (string \<times> 'v) list
    \<Rightarrow> 'v world \<Rightarrow> (exn + 'v) \<times> 'v world" where
  "wrapped self function pos kw w =
     (let w1 = enter self w in
      case call function pos kw w1 of
        (Inr result, w2) \<Rightarrow>
          (case name function of
             None \<Rightarrow> (Inl (AttributeError ''__name__''), w2)
           | Some n \<Rightarrow>
               (case exit self n pos kw w2 of
                  (Inl e, w3) \<Rightarrow> (Inl e, w3)
                | (Inr u, w3) \<Rightarrow> (Inr result, w3)))
      | (Inl e, w2) \<Rightarrow>
          (case name function of
             None \<Rightarrow> (Inl (AttributeError ''__name__''), w2)
           | Some n \<Rightarrow>
               (case exit self n pos kw w2 of
                  (Inl e', w3) \<Rightarrow> (Inl e', w3)
                | (Inr u, w3) \<Rightarrow> (Inl e, w3))))"

text \<open>
  \<open>TimeTracker.time_track\<close>: the decorator.  \<open>@wraps(function)\<close> gives the wrapper the
  \<open>__name__\<close> of the function it wraps; when the function has none, \<open>wraps\<close> skips the
  attribute and the wrapper keeps its own name, \<open>wrapped\<close>.
\<close>

definition time_track :: "'v TimeTracker \<Rightarrow> 'v callable \<Rightarrow> 'v callable" where
  "time_track self =
     (if do_time_tracking self
      then (\<lambda>function.
              \<lparr>name = Some (case name function of None \<Rightarrow> ''wrapped'' | Some n \<Rightarrow> n),
               call = wrapped self function\<rparr>)
      else (\<lambda>function. function))"

subsection \<open>Predicates on tracker states\<close>

text \<open>The two stacks of a tracker, as they are in a world.\<close>

definition stacks :: "'v TimeTracker \<Rightarrow> 'v world \<Rightarrow> real list \<times> real list" where
  "stacks self w = (heap w ! entering_times self, heap w ! total_times self)"

text \<open>The tracker's two addresses are allocated and are two different list objects.\<close>

definition wf_tracker :: "'v TimeTracker \<Rightarrow> 'v world \<Rightarrow> bool" where
  "wf_tracker self w \<longleftrightarrow>
     entering_times self < length (heap w) \<and> total_times self < length (heap w) \<and>
     entering_times self \<noteq> total_times self"

text \<open>The length invariant of the data model.\<close>

definition length_invariant :: "'v TimeTracker \<Rightarrow> 'v world \<Rightarrow> bool" where
  "length_invariant self w \<longleftrightarrow>
     length (heap w ! total_times self) = length (heap w ! entering_times self) + 1"

subsection \<open>The demonstration script examples.py\<close>

text \<open>
  \<open>Logger.log\<close> of examples.py prints the record and returns; \<open>time_tracker\<close> is the
  tracker the script builds with \<open>TimeTracker(logger, True)\<close>, right after the module is
  loaded, and \<open>examples_world c\<close> the world it is built in, under the clock \<open>c\<close> (the
  tracker itself is the same under every clock).
\<close>

definition Logger :: "'v logger" where
  "Logger = (\<lambda>w m. None)"

definition examples_init :: "(nat \<Rightarrow> real) \<Rightarrow> 'v TimeTracker \<times> 'v world" where
  "examples_init c = init Logger True True (module_init c)"

definition time_tracker :: "'v TimeTracker" where
  "time_tracker = fst (examples_init (\<lambda>n. 0))"

definition examples_world :: "(nat \<Rightarrow> real) \<Rightarrow> 'v world" where
  "examples_world c = snd (examples_init c)"

text \<open>
  The values the script passes around, and its function \<open>error_fun\<close> before decoration:
  it takes no argument, sleeps and raises.  \<open>time.sleep\<close> changes nothing in the world: the
  time that passes shows in the clock's later readings.
\<close>

datatype val = NoneV | IntV int | FloatV real

definition error_fun_function :: "val callable" where
  "error_fun_function =
     \<lparr>name = Some ''error_fun'',
      call = (\<lambda>pos kw w. case (pos, kw) of
                ([], []) \<Rightarrow> (Inl (Exception ''Booo''), w)
              | _ \<Rightarrow> (Inl (Exception ''TypeError''), w))\<rparr>"

subsection \<open>Drivers of the tracker\<close>

text \<open>
  A logger whose \<open>log\<close> always raises, and the tracker and world obtained by building an
  isolated, enabled tracker around it in a freshly loaded module.
\<close>

definition failing_logger :: "'v logger" where
  "failing_logger = (\<lambda>w m. Some (Exception ''log failed''))"

definition failing_init :: "(nat \<Rightarrow> real) \<Rightarrow> 'v TimeTracker \<times> 'v world" where
  "failing_init c = init failing_logger True True (module_init c)"

text \<open>
  Two callables to run the wrapper on: the function
  \<open>def n(*args, **kwargs): return v\<close>, which accepts every call and returns \<open>v\<close>, and
  \<open>functools.partial(f)\<close>, which calls \<open>f\<close> with the arguments it is given and has no
  \<open>__name__\<close>.
\<close>

definition returning :: "string \<Rightarrow> 'v \<Rightarrow> 'v callable" where
  "returning n v = \<lparr>name = Some n, call = (\<lambda>pos kw w. (Inr v, w))\<rparr>"

definition nameless :: "'v callable \<Rightarrow> 'v callable" where
  "nameless f = \<lparr>name = None, call = call f\<rparr>"

text \<open>
  A chain of instrumented callers, outermost first: the function named \<open>n\<close> does nothing
  but call the next one with the arguments it was given, as \<open>error_fun_caller\<close> calls
  \<open>error_fun\<close> in the script.
\<close>

fun ancestors :: "'v TimeTracker \<Rightarrow> string list \<Rightarrow> 'v callable \<Rightarrow> 'v callable" where
  "ancestors self [] f = f"
| "ancestors self (n # ns) f =
     time_track self \<lparr>name = Some n, call = call (ancestors self ns f)\<rparr>"

text \<open>
  Sequences of \<open>_enter\<close> and \<open>_exit\<close> calls on one tracker.  \<open>step\<close> performs one call and
  keeps the world it leaves, whatever its outcome (a failure of the logger, or of \<open>_exit\<close>
  itself, is the caller's to handle); \<open>exec\<close> performs a sequence.
\<close>

datatype 'v op = Enter | Exit string "'v list" "(string \<times> 'v) list"

fun step :: "'v TimeTracker \<Rightarrow> 'v op \<Rightarrow> 'v world \<Rightarrow> 'v world" where
  "step self Enter w = enter self w"
| "step self (Exit fn_name pos kw) w = snd (exit self fn_name pos kw w)"

fun exec :: "'v TimeTracker \<Rightarrow> 'v op list \<Rightarrow> 'v world \<Rightarrow> 'v world" where
  "exec self [] w = w"
| "exec self (x # xs) w = exec self xs (step self x w)"

text \<open>
  Proper nesting: \<open>nesting xs d\<close> follows the depth of the calls opened by \<open>xs\<close> itself,
  from \<open>d\<close>, and is \<open>None\<close> when an exit has no matching enter in \<open>xs\<close>.  A sequence of
  matched pairs starts and ends at depth 0.
\<close>

fun nesting :: "'v op list \<Rightarrow> nat \<Rightarrow> nat option" where
  "nesting [] d = Some d"
| "nesting (Enter # xs) d = nesting xs (Suc d)"
| "nesting (Exit fn_name pos kw # xs) d = (case d of 0 \<Rightarrow> None | Suc d' \<Rightarrow> nesting xs d')"

definition properly_nested :: "'v op list \<Rightarrow> bool" where
  "properly_nested xs \<longleftrightarrow> nesting xs 0 = Some 0"

text \<open>
  The \<open>total_time\<close> of each top-level call completed by a sequence, in order: a top-level
  call completes when \<open>_exit\<close> is called with exactly one entry timestamp on the stack, and
  its \<open>total_time\<close> is read off the record that this \<open>_exit\<close> hands to the logger.
\<close>

fun top_level_totals :: "'v TimeTracker \<Rightarrow> 'v op list \<Rightarrow> 'v world \<Rightarrow> real list" where
  "top_level_totals self [] w = []"
| "top_level_totals self (Enter # xs) w = top_level_totals self xs (enter self w)"
| "top_level_totals self (Exit fn_name pos kw # xs) w =
     (if length (fst (stacks self w)) = 1
      then [total_time (last (logged (snd (exit self fn_name pos kw w))))] else [])
     @ top_level_totals self xs (snd (exit self fn_name pos kw w))"

text \<open>
  A clock that never runs backwards, and a stack whose entry timestamps are not later than
  the clock's next reading (as they are when they were read off that clock).
\<close>

definition forward_clock :: "'v TimeTracker \<Rightarrow> 'v world \<Rightarrow> bool" where
  "forward_clock self w \<longleftrightarrow>
     (\<forall>i j. i \<le> j \<longrightarrow> clock w i \<le> clock w j) \<and>
     (\<forall>t \<in> set (fst (stacks self w)). t \<le> clock w (reads w))"

section \<open>Basic facts about the operations\<close>

lemma enter_eq:
  "wf_tracker self w \<Longrightarrow>
   enter self w =
     w\<lparr>reads := Suc (reads w),
       heap := (heap w)[entering_times self := heap w ! entering_times self @ [clock w (reads w)],
                        total_times self := heap w ! total_times self @ [0]]\<rparr>"
  by (simp add: enter_def time_time_def list_append_def wf_tracker_def)

lemma stacks_enter:
  "wf_tracker self w \<Longrightarrow>
   stacks self (enter self w) =
     (fst (stacks self w) @ [clock w (reads w)], snd (stacks self w) @ [0])"
  by (simp add: enter_eq) (simp add: stacks_def wf_tracker_def)

lemma exit_nonempty:
  assumes "wf_tracker self w"
    and "heap w ! entering_times self = es @ [e]"
    and "heap w ! total_times self = ts @ [p, c]"
  shows "exit self fn_name pos kw w =
     logger_log (logger self)
       \<lparr>function_name = fn_name, args = pos, kwargs = kw,
        total_time = clock w (reads w) - e, partial_time = clock w (reads w) - e - c\<rparr>
       (w\<lparr>reads := Suc (reads w),
          heap := (heap w)[entering_times self := es,
                           total_times self := ts @ [p + (clock w (reads w) - e)]]\<rparr>)"
  using assms
  by (simp add: exit_def list_pop_def time_time_def list_iadd_last_def wf_tracker_def
      Let_def butlast_append nth_append)

lemma stacks_popped:
  "wf_tracker self w \<Longrightarrow>
   stacks self (w\<lparr>reads := r, heap := (heap w)[entering_times self := es, total_times self := ts]\<rparr>\<lparr>logged := l\<rparr>)
     = (es, ts)"
  by (simp add: stacks_def wf_tracker_def)

lemma snd_logger_log: "snd (logger_log lg m w) = w\<lparr>logged := logged w @ [m]\<rparr>"
  by (simp add: logger_log_def)

lemma fst_logger_log: "fst (logger_log lg m w) = (case lg w m of None \<Rightarrow> Inr () | Some e \<Rightarrow> Inl e)"
  by (simp add: logger_log_def)

lemma length_heap_enter: "length (heap (enter self w)) = length (heap w)"
  by (simp add: enter_def time_time_def list_append_def)

lemma length_heap_exit: "length (heap (snd (exit self fn_name pos kw w))) = length (heap w)"
  by (simp add: exit_def list_pop_def time_time_def list_iadd_last_def logger_log_def Let_def
      split: sum.splits prod.splits if_splits)

lemma clock_enter: "clock (enter self w) = clock w"
  by (simp add: enter_def time_time_def list_append_def)

lemma clock_exit: "clock (snd (exit self fn_name pos kw w)) = clock w"
  by (simp add: exit_def list_pop_def time_time_def list_iadd_last_def logger_log_def Let_def
      split: sum.splits prod.splits if_splits)

lemma wf_tracker_enter: "wf_tracker t w \<Longrightarrow> wf_tracker t (enter self w)"
  by (simp add: wf_tracker_def length_heap_enter)

lemma wf_tracker_exit: "wf_tracker t w \<Longrightarrow> wf_tracker t (snd (exit self fn_name pos kw w))"
  by (simp add: wf_tracker_def length_heap_exit)

lemma exit_empty:
  "heap w ! entering_times self = [] \<Longrightarrow>
   exit self fn_name pos kw w = (Inl (IndexError ''pop from empty list''), w)"
  by (simp add: exit_def list_pop_def)

lemma frame_enter:
  "a \<noteq> entering_times self \<Longrightarrow> a \<noteq> total_times self \<Longrightarrow> heap (enter self w) ! a = heap w ! a"
  by (simp add: enter_def time_time_def list_append_def)

lemma frame_exit:
  "a \<noteq> entering_times self \<Longrightarrow> a \<noteq> total_times self \<Longrightarrow>
   heap (snd (exit self fn_name pos kw w)) ! a = heap w ! a"
  by (simp add: exit_def list_pop_def time_time_def list_iadd_last_def logger_log_def Let_def
      split: sum.splits prod.splits if_splits)

lemma split_stacks:
  assumes "length_invariant self w" and "heap w ! entering_times self \<noteq> []"
  shows "\<exists>es e ts p c. heap w ! entering_times self = es @ [e] \<and>
           heap w ! total_times self = ts @ [p, c] \<and> length ts = length es"
proof -
  let ?E = "heap w ! entering_times self" and ?T = "heap w ! total_times self"
  from assms(2) have E: "?E = butlast ?E @ [last ?E]"
    by simp
  from assms have len: "length ?T = length (butlast ?E) + 2"
    by (simp add: length_invariant_def)
  then have "?T \<noteq> []"
    by auto
  then have T1: "?T = butlast ?T @ [last ?T]"
    by simp
  from len have "length (butlast ?T) = Suc (length (butlast ?E))"
    by simp
  then have "butlast ?T \<noteq> []"
    by (cases "butlast ?T") simp_all
  then have "butlast ?T = butlast (butlast ?T) @ [last (butlast ?T)]"
    by simp
  with T1 have T: "?T = butlast (butlast ?T) @ [last (butlast ?T), last ?T]"
    by (metis append.assoc append_Cons append_Nil)
  from len have "length (butlast (butlast ?T)) = length (butlast ?E)"
    by simp
  with E T show ?thesis
    by blast
qed

lemmas examples_defs =
  time_tracker_def examples_world_def examples_init_def init_def module_init_def Logger_def

section \<open>The call stack tracker\<close>

text \<open>
  Claim C3.  Calling \<open>_exit\<close> on a tracker whose stack of entry timestamps is empty fails
  with the pop-on-empty-list error (\<open>IndexError\<close>, the failure that the specification
  names UnbalancedStackError), and the world it leaves is the world it found: no list is
  changed, no clock reading is taken, nothing is logged.  Under the length invariant the
  stacks are then the empty entry stack and the root accumulator alone.
\<close>

theorem exit_on_empty_stack:
  assumes "fst (stacks self w) = []"
  shows "exit self fn_name pos kw w = (Inl (IndexError ''pop from empty list''), w) \<and>
         (length_invariant self w \<longrightarrow>
            (\<exists>root. stacks self (snd (exit self fn_name pos kw w)) = ([], [root])))"
proof -
  from assms have E: "heap w ! entering_times self = []"
    by (simp add: stacks_def)
  have 1: "exit self fn_name pos kw w = (Inl (IndexError ''pop from empty list''), w)"
    by (rule exit_empty [OF E])
  have "length_invariant self w \<Longrightarrow> \<exists>root. stacks self w = ([], [root])"
    using E by (auto simp: length_invariant_def stacks_def length_Suc_conv)
  with 1 show ?thesis by simp
qed

theorem exit_on_empty_stack_witness:
  "fst (stacks time_tracker (examples_world real :: nat world)) = [] \<and>
   length_invariant time_tracker (examples_world real :: nat world) \<and>
   exit time_tracker ''f'' [] [] (examples_world real :: nat world) =
     (Inl (IndexError ''pop from empty list''), examples_world real) \<and>
   stacks time_tracker (snd (exit time_tracker ''f'' [] [] (examples_world real :: nat world)))
     = ([], [0])"
proof -
  have h: "fst (stacks time_tracker (examples_world real :: nat world)) = []"
    by (simp add: examples_defs stacks_def)
  have i: "length_invariant time_tracker (examples_world real :: nat world)"
    by (simp add: examples_defs length_invariant_def)
  have s: "stacks time_tracker (examples_world real :: nat world) = ([], [0])"
    by (simp add: examples_defs stacks_def)
  from exit_on_empty_stack [OF h, of "''f''" "[]" "[]"] h i s show ?thesis
    by simp
qed

text \<open>
  Claim C1.  In a state whose entry stack is not empty (\<open>es @ [e]\<close>, over accumulators
  \<open>ts @ [p, c]\<close>), \<open>_exit\<close> pops the last entry timestamp \<open>e\<close> and the last accumulator \<open>c\<close>,
  reads the clock, and hands the logger a record with
  \<open>total_time = now - e\<close> and \<open>partial_time = total_time - c\<close>, in a world where \<open>total_time\<close>
  has been added to the accumulator \<open>p\<close> that is now on top.  When there is a parent call,
  the record of the parent's own exit from stacks left so has a \<open>partial_time\<close> that is its
  \<open>total_time\<close> minus that accumulator: the child's total is excluded.
\<close>

theorem exit_computes_times:
  assumes "wf_tracker self w" and "stacks self w = (es @ [e], ts @ [p, c])"
  shows "exit self fn_name pos kw w =
           logger_log (logger self)
             \<lparr>function_name = fn_name, args = pos, kwargs = kw,
              total_time = clock w (reads w) - e,
              partial_time = (clock w (reads w) - e) - c\<rparr>
             (w\<lparr>reads := Suc (reads w),
                heap := (heap w)[entering_times self := es,
                                 total_times self := ts @ [p + (clock w (reads w) - e)]]\<rparr>)
         \<and> stacks self (snd (exit self fn_name pos kw w)) =
             (es, ts @ [p + (clock w (reads w) - e)])
         \<and> (\<forall>w2 fn2 pos2 kw2.
              wf_tracker self w2 \<and> es \<noteq> [] \<and> ts \<noteq> [] \<and>
              stacks self w2 = stacks self (snd (exit self fn_name pos kw w)) \<longrightarrow>
              partial_time (last (logged (snd (exit self fn2 pos2 kw2 w2)))) =
                total_time (last (logged (snd (exit self fn2 pos2 kw2 w2))))
                  - (p + (clock w (reads w) - e)))"
proof -
  from assms(2) have E: "heap w ! entering_times self = es @ [e]"
    and T: "heap w ! total_times self = ts @ [p, c]"
    by (simp_all add: stacks_def)
  note ex = exit_nonempty [OF assms(1) E T]
  have 1: "stacks self (snd (exit self fn_name pos kw w)) =
             (es, ts @ [p + (clock w (reads w) - e)])"
    by (simp add: ex snd_logger_log stacks_popped [OF assms(1)])
  have 2: "partial_time (last (logged (snd (exit self fn2 pos2 kw2 w2)))) =
                total_time (last (logged (snd (exit self fn2 pos2 kw2 w2))))
                  - (p + (clock w (reads w) - e))"
    if wf2: "wf_tracker self w2" and ne: "es \<noteq> []" "ts \<noteq> []"
      and st: "stacks self w2 = stacks self (snd (exit self fn_name pos kw w))"
    for w2 fn2 pos2 kw2
  proof -
    from ne obtain es' e' ts' q where es: "es = es' @ [e']" and ts: "ts = ts' @ [q]"
      by (metis append_butlast_last_id)
    from st 1 es ts have E2: "heap w2 ! entering_times self = es' @ [e']"
      and T2: "heap w2 ! total_times self = ts' @ [q, p + (clock w (reads w) - e)]"
      by (simp_all add: stacks_def)
    show ?thesis
      by (simp add: exit_nonempty [OF wf2 E2 T2] snd_logger_log)
  qed
  from ex 1 2 show ?thesis by blast
qed

text \<open>
  The witness is the demonstration script's first call: \<open>boo\<close> has entered at clock
  reading 0 and \<open>dodo\<close> at reading 1; \<open>dodo\<close> exits at reading 2 and \<open>boo\<close> right after.
\<close>

theorem exit_computes_times_witness:
  "wf_tracker time_tracker
     (enter time_tracker (enter time_tracker (examples_world real :: nat world))) \<and>
   stacks time_tracker (enter time_tracker (enter time_tracker (examples_world real :: nat world)))
     = ([0] @ [1], [0] @ [0, 0]) \<and>
   stacks time_tracker
     (snd (exit time_tracker ''dodo'' [1, 3] []
        (enter time_tracker (enter time_tracker (examples_world real :: nat world)))))
     = ([0], [0] @ [0 + (2 - 1)]) \<and>
   partial_time (last (logged (snd (exit time_tracker ''boo'' [1, 2] []
       (snd (exit time_tracker ''dodo'' [1, 3] []
          (enter time_tracker (enter time_tracker (examples_world real :: nat world)))))))))
     = total_time (last (logged (snd (exit time_tracker ''boo'' [1, 2] []
       (snd (exit time_tracker ''dodo'' [1, 3] []
          (enter time_tracker (enter time_tracker (examples_world real :: nat world)))))))))
       - (0 + (2 - 1))"
proof -
  let ?w = "enter time_tracker (enter time_tracker (examples_world real :: nat world))"
  let ?w2 = "snd (exit time_tracker ''dodo'' [1, 3] [] ?w)"
  have h1: "wf_tracker time_tracker ?w"
    by (simp add: examples_defs wf_tracker_def length_heap_enter)
  have h2: "stacks time_tracker ?w = ([0] @ [1], [0] @ [0, 0])"
    by (simp add: examples_defs stacks_def enter_def time_time_def list_append_def)
  have c: "clock ?w (reads ?w) = 2"
    by (simp add: examples_defs enter_def time_time_def list_append_def)
  have h3: "wf_tracker time_tracker ?w2"
    by (rule wf_tracker_exit [OF h1])
  note t = exit_computes_times [OF h1 h2, of "''dodo''" "[1, 3]" "[]"]
  note t2 = t [THEN conjunct2, THEN conjunct1]
  note t3 = t [THEN conjunct2, THEN conjunct2, rule_format, of ?w2 "''boo''" "[1, 2]" "[]"]
  have p: "partial_time (last (logged (snd (exit time_tracker ''boo'' [1, 2] [] ?w2))))
     = total_time (last (logged (snd (exit time_tracker ''boo'' [1, 2] [] ?w2)))) - (0 + (2 - 1))"
    using t3 h3 c by simp
  from t2 h1 h2 c p show ?thesis
    by simp
qed

text \<open>
  Claim C10.  In \<open>_exit\<close> both pops and the addition to the new top accumulator are done
  before \<open>logger.log\<close> is called: the logger is called in the world with the popped
  stacks.  If it raises there, \<open>_exit\<close> raises the logger's failure, and the world it
  leaves has the fully popped stacks, which satisfy the length invariant.
\<close>

theorem logger_failure_after_mutation:
  assumes "wf_tracker self w" and "length_invariant self w"
    and "stacks self w = (es @ [e], ts @ [p, c])"
    and "logger self
           (w\<lparr>reads := Suc (reads w),
              heap := (heap w)[entering_times self := es,
                               total_times self := ts @ [p + (clock w (reads w) - e)]]\<rparr>)
           \<lparr>function_name = fn_name, args = pos, kwargs = kw,
            total_time = clock w (reads w) - e,
            partial_time = (clock w (reads w) - e) - c\<rparr> = Some x"
  shows "exit self fn_name pos kw w =
           (Inl x,
            w\<lparr>reads := Suc (reads w),
              heap := (heap w)[entering_times self := es,
                               total_times self := ts @ [p + (clock w (reads w) - e)]],
              logged := logged w @
                [\<lparr>function_name = fn_name, args = pos, kwargs = kw,
                  total_time = clock w (reads w) - e,
                  partial_time = (clock w (reads w) - e) - c\<rparr>]\<rparr>)
         \<and> stacks self (snd (exit self fn_name pos kw w)) =
             (es, ts @ [p + (clock w (reads w) - e)])
         \<and> length_invariant self (snd (exit self fn_name pos kw w))"
proof -
  from assms(3) have E: "heap w ! entering_times self = es @ [e]"
    and T: "heap w ! total_times self = ts @ [p, c]"
    by (simp_all add: stacks_def)
  from assms(2) E T have len: "length ts = length es"
    by (simp add: length_invariant_def)
  note ex = exit_nonempty [OF assms(1) E T, of fn_name pos kw]
  have 1: "exit self fn_name pos kw w =
           (Inl x,
            w\<lparr>reads := Suc (reads w),
              heap := (heap w)[entering_times self := es,
                               total_times self := ts @ [p + (clock w (reads w) - e)]],
              logged := logged w @
                [\<lparr>function_name = fn_name, args = pos, kwargs = kw,
                  total_time = clock w (reads w) - e,
                  partial_time = (clock w (reads w) - e) - c\<rparr>]\<rparr>)"
    using assms(4) by (simp add: ex logger_log_def)
  have 2: "stacks self (snd (exit self fn_name pos kw w)) =
             (es, ts @ [p + (clock w (reads w) - e)])"
    by (simp add: ex snd_logger_log stacks_popped [OF assms(1)])
  from 2 len have 3: "length_invariant self (snd (exit self fn_name pos kw w))"
    by (simp add: length_invariant_def stacks_def)
  from 1 2 3 show ?thesis by blast
qed

theorem logger_failure_after_mutation_witness:
  "wf_tracker (fst (failing_init real)) (enter (fst (failing_init real)) (snd (failing_init real) :: nat world)) \<and>
   length_invariant (fst (failing_init real)) (enter (fst (failing_init real)) (snd (failing_init real) :: nat world)) \<and>
   stacks (fst (failing_init real)) (enter (fst (failing_init real)) (snd (failing_init real) :: nat world))
     = ([] @ [0], [] @ [0, 0]) \<and>
   fst (exit (fst (failing_init real)) ''f'' [] []
          (enter (fst (failing_init real)) (snd (failing_init real) :: nat world)))
     = Inl (Exception ''log failed'') \<and>
   stacks (fst (failing_init real))
     (snd (exit (fst (failing_init real)) ''f'' [] []
          (enter (fst (failing_init real)) (snd (failing_init real) :: nat world))))
     = ([], [] @ [0 + (1 - 0)]) \<and>
   length_invariant (fst (failing_init real))
     (snd (exit (fst (failing_init real)) ''f'' [] []
          (enter (fst (failing_init real)) (snd (failing_init real) :: nat world))))"
proof -
  let ?t = "fst (failing_init real) :: nat TimeTracker"
  let ?w = "enter ?t (snd (failing_init real))"
  have h1: "wf_tracker ?t ?w"
    by (simp add: failing_init_def init_def module_init_def wf_tracker_def length_heap_enter)
  have h2: "length_invariant ?t ?w"
    by (simp add: failing_init_def init_def module_init_def length_invariant_def enter_def
        time_time_def list_append_def)
  have h3: "stacks ?t ?w = ([] @ [0], [] @ [0, 0])"
    by (simp add: failing_init_def init_def module_init_def stacks_def enter_def
        time_time_def list_append_def)
  have c: "clock ?w (reads ?w) = 1"
    by (simp add: failing_init_def init_def module_init_def enter_def time_time_def
        list_append_def)
  have h4: "logger ?t
           (?w\<lparr>reads := Suc (reads ?w),
              heap := (heap ?w)[entering_times ?t := [],
                               total_times ?t := [] @ [0 + (clock ?w (reads ?w) - 0)]]\<rparr>)
           \<lparr>function_name = ''f'', args = [], kwargs = [],
            total_time = clock ?w (reads ?w) - 0,
            partial_time = (clock ?w (reads ?w) - 0) - 0\<rparr> = Some (Exception ''log failed'')"
    by (simp add: failing_init_def init_def failing_logger_def)
  note t = logger_failure_after_mutation [OF h1 h2 h3 h4]
  have "fst (exit ?t ''f'' [] [] ?w) = Inl (Exception ''log failed'')"
    using t [THEN conjunct1] by simp
  with t [THEN conjunct2] h1 h2 h3 c show ?thesis
    by simp
qed

section \<open>The instrumentation wrapper\<close>

lemma logged_list_pop: "list_pop a w = Inr (x, w1) \<Longrightarrow> logged w1 = logged w"
  by (auto simp: list_pop_def split: if_splits)

lemma logged_list_iadd_last: "list_iadd_last a v w = Inr w1 \<Longrightarrow> logged w1 = logged w"
  by (auto simp: list_iadd_last_def Let_def split: if_splits)

lemma exit_Inr_logged:
  assumes "exit self fn_name pos kw w1 = (Inr u, w')"
  shows "\<exists>tt pt. logged w' = logged w1 @
           [\<lparr>function_name = fn_name, args = pos, kwargs = kw, total_time = tt, partial_time = pt\<rparr>]"
proof (cases "list_pop (entering_times self) w1")
  case (Inl e)
  with assms show ?thesis by (simp add: exit_def)
next
  case (Inr a)
  then obtain t0 wa where A: "list_pop (entering_times self) w1 = Inr (t0, wa)"
    by (cases a) simp
  show ?thesis
  proof (cases "list_pop (total_times self) wa")
    case (Inl e)
    with assms A show ?thesis by (simp add: exit_def)
  next
    case (Inr b)
    then obtain c0 wb where B: "list_pop (total_times self) wa = Inr (c0, wb)"
      by (cases b) simp
    let ?wc = "wb\<lparr>reads := Suc (reads wb)\<rparr>"
    let ?tot = "clock wb (reads wb) - t0"
    show ?thesis
    proof (cases "list_iadd_last (total_times self) ?tot ?wc")
      case (Inl e)
      with assms A B show ?thesis by (simp add: exit_def time_time_def)
    next
      case (Inr wd)
      have l: "logged wd = logged w1"
        using logged_list_iadd_last [OF Inr] logged_list_pop [OF A] logged_list_pop [OF B]
        by simp
      from assms A B Inr have "w' = wd\<lparr>logged := logged wd @
         [\<lparr>function_name = fn_name, args = pos, kwargs = kw, total_time = ?tot,
           partial_time = ?tot - c0\<rparr>]\<rparr>"
        by (simp add: exit_def time_time_def logger_log_def Let_def split: option.splits)
      with l show ?thesis by simp
    qed
  qed
qed

text \<open>
  Claim C5.  A tracker built with \<open>do_time_tracking\<close> false returns, from \<open>time_track\<close>,
  the callable it was given: the same function object, so every call of it returns the
  same value or failure and leaves the same world as the original, tracker included.
\<close>

theorem disabled_tracking_returns_original:
  assumes "\<not> do_time_tracking self"
  shows "time_track self function = function \<and>
         call (time_track self function) pos kw w = call function pos kw w"
  using assms by (simp add: time_track_def)

theorem disabled_tracking_returns_original_witness:
  "\<not> do_time_tracking (fst (init Logger False True (module_init real :: val world))) \<and>
   time_track (fst (init Logger False True (module_init real))) (returning ''f'' (IntV 1))
     = returning ''f'' (IntV 1) \<and>
   call (time_track (fst (init Logger False True (module_init real))) (returning ''f'' (IntV 1)))
        [IntV 1] [(''i'', FloatV 0.3)] (snd (init Logger False True (module_init real)))
     = (Inr (IntV 1), snd (init Logger False True (module_init real)))"
proof -
  have h: "\<not> do_time_tracking (fst (init Logger False True (module_init real :: val world)))"
    by (simp add: init_def)
  have c: "call (returning ''f'' (IntV 1)) [IntV 1] [(''i'', FloatV 0.3)]
             (snd (init Logger False True (module_init real)))
     = (Inr (IntV 1), snd (init Logger False True (module_init real)))"
    by (simp add: returning_def)
  from disabled_tracking_returns_original [OF h, of "returning ''f'' (IntV 1)" "[IntV 1]"
      "[(''i'', FloatV 0.3)]" "snd (init Logger False True (module_init real))"] h c
  show ?thesis by simp
qed

lemmas run_defs = enter_def exit_def time_time_def list_append_def list_pop_def list_iadd_last_def logger_log_def

text \<open>
  What a call of the wrapper does for a function that has a \<open>__name__\<close>, when the body
  leaves a pending entry on the stacks: whatever the body's outcome \<open>r\<close>, one record is
  logged, and the wrapper's outcome is \<open>r\<close> if the logger returns and the logger's failure
  if it raises.
\<close>

lemma wrapped_named:
  assumes N: "name function = Some n"
    and B: "call function pos kw (enter self w) = (r, w1)"
    and wf: "wf_tracker self w1"
    and S: "stacks self w1 = (es @ [t0], ts @ [p, c])"
  shows "wrapped self function pos kw w =
     (case logger self
                  (w1\<lparr>reads := Suc (reads w1),
                      heap := (heap w1)[entering_times self := es,
                                total_times self := ts @ [p + (clock w1 (reads w1) - t0)]]\<rparr>)
                  \<lparr>function_name = n, args = pos, kwargs = kw,
                   total_time = clock w1 (reads w1) - t0,
                   partial_time = (clock w1 (reads w1) - t0) - c\<rparr>
           of None \<Rightarrow> r | Some e' \<Rightarrow> Inl e',
      w1\<lparr>reads := Suc (reads w1),
         heap := (heap w1)[entering_times self := es,
                   total_times self := ts @ [p + (clock w1 (reads w1) - t0)]],
         logged := logged w1 @
           [\<lparr>function_name = n, args = pos, kwargs = kw,
             total_time = clock w1 (reads w1) - t0,
             partial_time = (clock w1 (reads w1) - t0) - c\<rparr>]\<rparr>)"
proof -
  from S have E: "heap w1 ! entering_times self = es @ [t0]"
    and T: "heap w1 ! total_times self = ts @ [p, c]"
    by (simp_all add: stacks_def)
  show ?thesis
    by (cases r)
      (simp_all add: wrapped_def B N exit_nonempty [OF wf E T] logger_log_def
        split: option.splits)
qed

text \<open>
  Claim C6, as the code has it.  With tracking enabled and a function that has a
  \<open>__name__\<close>, the wrapper carries that name.  When the function, called with exactly the
  wrapper's positional and keyword arguments in the world that \<open>_enter\<close> left, returns a
  result and leaves the call's pending entry on the stacks, one record is handed to the
  logger, whose \<open>function_name\<close> is the function's name and whose \<open>args\<close> and \<open>kwargs\<close> are
  those arguments; the wrapper then returns that very result when \<open>logger.log\<close> returned
  normally, and raises the logger's failure when \<open>logger.log\<close> raised.  Conversely,
  whenever a call of the wrapper returns a result, the original returned it on the same
  arguments and that record was logged after it.
\<close>

theorem wrapper_transparent:
  assumes "do_time_tracking self" and "name function = Some n"
  shows "name (time_track self function) = Some n \<and>
    (\<forall>result w1 es t0 ts p c.
        call function pos kw (enter self w) = (Inr result, w1) \<and> wf_tracker self w1 \<and>
        stacks self w1 = (es @ [t0], ts @ [p, c]) \<longrightarrow>
        call (time_track self function) pos kw w =
          (case logger self
                  (w1\<lparr>reads := Suc (reads w1),
                      heap := (heap w1)[entering_times self := es,
                                total_times self := ts @ [p + (clock w1 (reads w1) - t0)]]\<rparr>)
                  \<lparr>function_name = n, args = pos, kwargs = kw,
                   total_time = clock w1 (reads w1) - t0,
                   partial_time = (clock w1 (reads w1) - t0) - c\<rparr>
                of None \<Rightarrow> Inr result | Some e \<Rightarrow> Inl e,
           w1\<lparr>reads := Suc (reads w1),
              heap := (heap w1)[entering_times self := es,
                        total_times self := ts @ [p + (clock w1 (reads w1) - t0)]],
              logged := logged w1 @
                [\<lparr>function_name = n, args = pos, kwargs = kw,
                  total_time = clock w1 (reads w1) - t0,
                  partial_time = (clock w1 (reads w1) - t0) - c\<rparr>]\<rparr>)) \<and>
    (\<forall>result w'. call (time_track self function) pos kw w = (Inr result, w') \<longrightarrow>
         fst (call function pos kw (enter self w)) = Inr result \<and>
         (\<exists>tt pt. logged w' = logged (snd (call function pos kw (enter self w))) @
           [\<lparr>function_name = n, args = pos, kwargs = kw,
             total_time = tt, partial_time = pt\<rparr>]))"
proof -
  have 1: "name (time_track self function) = Some n"
    using assms by (simp add: time_track_def)
  have 2: "call (time_track self function) pos kw w =
          (case logger self
                  (w1\<lparr>reads := Suc (reads w1),
                      heap := (heap w1)[entering_times self := es,
                                total_times self := ts @ [p + (clock w1 (reads w1) - t0)]]\<rparr>)
                  \<lparr>function_name = n, args = pos, kwargs = kw,
                   total_time = clock w1 (reads w1) - t0,
                   partial_time = (clock w1 (reads w1) - t0) - c\<rparr>
                of None \<Rightarrow> Inr result | Some e \<Rightarrow> Inl e,
           w1\<lparr>reads := Suc (reads w1),
              heap := (heap w1)[entering_times self := es,
                        total_times self := ts @ [p + (clock w1 (reads w1) - t0)]],
              logged := logged w1 @
                [\<lparr>function_name = n, args = pos, kwargs = kw,
                  total_time = clock w1 (reads w1) - t0,
                  partial_time = (clock w1 (reads w1) - t0) - c\<rparr>]\<rparr>)"
    if "call function pos kw (enter self w) = (Inr result, w1)" "wf_tracker self w1"
      "stacks self w1 = (es @ [t0], ts @ [p, c])" for result w1 es t0 ts p c
    using assms(1) wrapped_named [OF assms(2) that] by (simp add: time_track_def)
  have 3: "fst (call function pos kw (enter self w)) = Inr result \<and>
         (\<exists>tt pt. logged w' = logged (snd (call function pos kw (enter self w))) @
           [\<lparr>function_name = n, args = pos, kwargs = kw,
             total_time = tt, partial_time = pt\<rparr>])"
    if "call (time_track self function) pos kw w = (Inr result, w')" for result w'
  proof -
    from that assms have W: "wrapped self function pos kw w = (Inr result, w')"
      by (simp add: time_track_def)
    obtain r1 w1 where B: "call function pos kw (enter self w) = (r1, w1)"
      by (cases "call function pos kw (enter self w)")
    obtain r2 w2 where X: "exit self n pos kw w1 = (r2, w2)"
      by (cases "exit self n pos kw w1")
    from W B X assms(2) have "r1 = Inr result \<and> w2 = w' \<and> r2 = Inr ()"
      by (auto simp: wrapped_def split: sum.splits)
    with B X exit_Inr_logged [of self n pos kw w1 "()" w'] show ?thesis
      by simp
  qed
  from 1 2 3 show ?thesis by blast
qed

theorem wrapper_transparent_witness:
  "do_time_tracking (time_tracker :: val TimeTracker) \<and>
   name (returning ''f'' (IntV 1)) = Some ''f'' \<and>
   call (returning ''f'' (IntV 1)) [IntV 1] [(''i'', FloatV 0.3)]
        (enter time_tracker (examples_world real))
     = (Inr (IntV 1), enter time_tracker (examples_world real)) \<and>
   wf_tracker time_tracker (enter time_tracker (examples_world real :: val world)) \<and>
   stacks time_tracker (enter time_tracker (examples_world real :: val world))
     = ([] @ [0], [] @ [0, 0]) \<and>
   call (time_track time_tracker (returning ''f'' (IntV 1))) [IntV 1] [(''i'', FloatV 0.3)]
        (examples_world real)
     = (Inr (IntV 1),
        \<lparr>heap = [[], [0], [], [1]], clock = real, reads = 2,
         logged = [\<lparr>function_name = ''f'', args = [IntV 1], kwargs = [(''i'', FloatV 0.3)],
                    total_time = 1, partial_time = 1\<rparr>]\<rparr>) \<and>
   name (time_track (time_tracker :: val TimeTracker) (returning ''f'' (IntV 1))) = Some ''f'' \<and>
   fst (call (returning ''f'' (IntV 1)) [IntV 1] [(''i'', FloatV 0.3)]
          (enter time_tracker (examples_world real)))
     = Inr (IntV 1)"
proof -
  let ?t = "time_tracker :: val TimeTracker"
  let ?w = "examples_world real :: val world"
  let ?w1 = "enter ?t ?w"
  let ?f = "returning ''f'' (IntV 1)"
  let ?w' = "\<lparr>heap = [[], [0], [], [1]], clock = real, reads = 2,
         logged = [\<lparr>function_name = ''f'', args = [IntV 1], kwargs = [(''i'', FloatV 0.3)],
                    total_time = 1, partial_time = 1\<rparr>]\<rparr> :: val world"
  have on: "do_time_tracking ?t"
    by (simp add: examples_defs)
  have n: "name ?f = Some ''f''"
    by (simp add: returning_def)
  have b: "call ?f [IntV 1] [(''i'', FloatV 0.3)] ?w1 = (Inr (IntV 1), ?w1)"
    by (simp add: returning_def)
  have wf: "wf_tracker ?t ?w"
    by (simp add: examples_defs wf_tracker_def)
  have wf1: "wf_tracker ?t ?w1"
    by (rule wf_tracker_enter [OF wf])
  have s: "stacks ?t ?w = ([], [0])"
    by (simp add: examples_defs stacks_def)
  have s1: "stacks ?t ?w1 = ([] @ [0], [] @ [0, 0])"
    by (simp add: stacks_enter [OF wf] s) (simp add: examples_defs)
  have w1: "?w1 = \<lparr>heap = [[], [0], [0], [0, 0]], clock = real, reads = 1, logged = []\<rparr>"
    by (simp add: examples_defs run_defs)
  note t = wrapper_transparent [OF on n, of "[IntV 1]" "[(''i'', FloatV 0.3)]" ?w]
  from t [THEN conjunct2, THEN conjunct1, THEN spec [of _ "IntV 1"], THEN spec [of _ ?w1],
      THEN spec [of _ "[]"], THEN spec [of _ 0], THEN spec [of _ "[]"], THEN spec [of _ 0],
      THEN spec [of _ 0]] b wf1 s1
  have c: "call (time_track ?t ?f) [IntV 1] [(''i'', FloatV 0.3)] ?w = (Inr (IntV 1), ?w')"
    by (simp add: w1) (simp add: examples_defs)
  from t [THEN conjunct2, THEN conjunct2, rule_format, OF c]
  have 2: "fst (call ?f [IntV 1] [(''i'', FloatV 0.3)] ?w1) = Inr (IntV 1)"
    by simp
  from on n b wf1 s1 c t [THEN conjunct1] 2 show ?thesis
    by blast
qed

text \<open>
  As stated for every wrapped callable that completes normally, the claim fails in two
  ways.  Wrapped by a tracker whose logger always raises, a function that returns 1 makes
  the wrapper raise the logger's failure: the result is lost.  And for a callable without
  \<open>__name__\<close>, evaluating \<open>function.__name__\<close> in the \<open>finally\<close> block raises
  \<open>AttributeError\<close>: the result is lost again, no record is emitted and the entry stays
  on the stack.
\<close>

theorem wrapper_result_lost_counterexample:
  "fst (call (returning ''f'' (IntV 1)) [IntV 1] [(''i'', FloatV 0.3)]
          (enter (fst (failing_init real)) (snd (failing_init real))))
     = Inr (IntV 1) \<and>
   fst (call (time_track (fst (failing_init real)) (returning ''f'' (IntV 1)))
          [IntV 1] [(''i'', FloatV 0.3)] (snd (failing_init real)))
     = Inl (Exception ''log failed'') \<and>
   fst (call (nameless (returning ''f'' (IntV 1))) [IntV 1] [(''i'', FloatV 0.3)]
          (enter time_tracker (examples_world real)))
     = Inr (IntV 1) \<and>
   call (time_track time_tracker (nameless (returning ''f'' (IntV 1))))
          [IntV 1] [(''i'', FloatV 0.3)] (examples_world real)
     = (Inl (AttributeError ''__name__''),
        \<lparr>heap = [[], [0], [0], [0, 0]], clock = real, reads = 1, logged = []\<rparr>)"
  by (simp add: failing_init_def failing_logger_def examples_defs time_track_def
      wrapped_def returning_def nameless_def run_defs)

lemma list_of_length_Suc: "length xs = Suc n \<Longrightarrow> \<exists>ys y. xs = ys @ [y] \<and> length ys = n"
  by (metis length_Suc_conv_rev)

lemma wrapped_raises_quiet:
  assumes quiet: "\<forall>w m. logger self w m = None"
    and N: "name function = Some n"
    and B: "call function pos kw (enter self w) = (Inl e, w1)"
    and wf: "wf_tracker self w1"
    and L1: "length (fst (stacks self w1)) = Suc k"
    and L2: "length (snd (stacks self w1)) = Suc (Suc k)"
  shows "\<exists>w' m. wrapped self function pos kw w = (Inl e, w') \<and> wf_tracker self w' \<and>
           length (fst (stacks self w')) = k \<and> length (snd (stacks self w')) = Suc k \<and>
           logged w' = logged w1 @ [m] \<and> function_name m = n"
proof -
  from L1 obtain es t0 where E: "fst (stacks self w1) = es @ [t0]" "length es = k"
    using list_of_length_Suc by blast
  from L2 obtain ts' c where T1: "snd (stacks self w1) = ts' @ [c]" "length ts' = Suc k"
    using list_of_length_Suc by blast
  from T1(2) obtain ts p where T2: "ts' = ts @ [p]" "length ts = k"
    using list_of_length_Suc by blast
  from E T1 T2 have S: "stacks self w1 = (es @ [t0], ts @ [p, c])"
    by (cases "stacks self w1") simp
  note W = wrapped_named [OF N B wf S]
  let ?w' = "snd (wrapped self function pos kw w)"
  have 1: "wrapped self function pos kw w = (Inl e, ?w')"
    by (simp add: W quiet)
  have 2: "wf_tracker self ?w'"
    using wf by (simp add: W wf_tracker_def)
  have 3: "stacks self ?w' = (es, ts @ [p + (clock w1 (reads w1) - t0)])"
    using wf by (simp add: W stacks_def wf_tracker_def)
  have 4: "logged ?w' = logged w1 @ [\<lparr>function_name = n, args = pos, kwargs = kw,
             total_time = clock w1 (reads w1) - t0,
             partial_time = (clock w1 (reads w1) - t0) - c\<rparr>]"
    by (simp add: W)
  from 1 2 3 4 E(2) T2(2) show ?thesis
    by (intro exI [of _ ?w'] exI) auto
qed

lemma ancestors_raise:
  assumes quiet: "\<forall>w m. logger self w m = None" and on: "do_time_tracking self"
  shows "wf_tracker self w \<Longrightarrow> length_invariant self w \<Longrightarrow>
    call f pos kw ((enter self ^^ length ns) w) = (Inl e, w1) \<Longrightarrow> wf_tracker self w1 \<Longrightarrow>
    length (fst (stacks self w1)) = length (fst (stacks self w)) + length ns \<Longrightarrow>
    length (snd (stacks self w1)) = length (snd (stacks self w)) + length ns \<Longrightarrow>
    \<exists>w' ms. call (ancestors self ns f) pos kw w = (Inl e, w') \<and> wf_tracker self w' \<and>
       length (fst (stacks self w')) = length (fst (stacks self w)) \<and>
       length (snd (stacks self w')) = length (snd (stacks self w)) \<and>
       logged w' = logged w1 @ ms \<and> map function_name ms = rev ns"
proof (induction ns arbitrary: w)
  case Nil
  then show ?case by simp
next
  case (Cons n ns)
  let ?we = "enter self w"
  let ?g = "\<lparr>name = Some n, call = call (ancestors self ns f)\<rparr>"
  have wfe: "wf_tracker self ?we"
    by (rule wf_tracker_enter [OF Cons.prems(1)])
  have se: "stacks self ?we = (fst (stacks self w) @ [clock w (reads w)], snd (stacks self w) @ [0])"
    by (rule stacks_enter [OF Cons.prems(1)])
  from Cons.prems(2) have inv: "length (snd (stacks self w)) = Suc (length (fst (stacks self w)))"
    by (simp add: length_invariant_def stacks_def)
  have inve: "length_invariant self ?we"
    using se inv by (simp add: length_invariant_def stacks_def)
  have body: "call f pos kw ((enter self ^^ length ns) ?we) = (Inl e, w1)"
    using Cons.prems(3) by (simp add: funpow_swap1)
  from Cons.IH [OF wfe inve body Cons.prems(4)] Cons.prems(5,6) se
  obtain w'' ms where I: "call (ancestors self ns f) pos kw ?we = (Inl e, w'')"
      "wf_tracker self w''"
      "length (fst (stacks self w'')) = length (fst (stacks self ?we))"
      "length (snd (stacks self w'')) = length (snd (stacks self ?we))"
      "logged w'' = logged w1 @ ms" "map function_name ms = rev ns"
    by auto
  have B: "call ?g pos kw ?we = (Inl e, w'')"
    using I(1) by simp
  have N: "name ?g = Some n"
    by simp
  from I(3,4) se inv have L: "length (fst (stacks self w'')) = Suc (length (fst (stacks self w)))"
      "length (snd (stacks self w'')) = Suc (Suc (length (fst (stacks self w))))"
    by simp_all
  from wrapped_raises_quiet [OF quiet N B I(2) L]
  obtain w' m where W: "wrapped self ?g pos kw w = (Inl e, w')" "wf_tracker self w'"
      "length (fst (stacks self w')) = length (fst (stacks self w))"
      "length (snd (stacks self w')) = Suc (length (fst (stacks self w)))"
      "logged w' = logged w'' @ [m]" "function_name m = n"
    by blast
  have "call (ancestors self (n # ns) f) pos kw w = (Inl e, w')"
    using on W(1) by (simp add: time_track_def)
  moreover have "logged w' = logged w1 @ (ms @ [m])"
    using W(5) I(5) by simp
  moreover have "map function_name (ms @ [m]) = rev (n # ns)"
    using W(6) I(6) by simp
  moreover have "length (snd (stacks self w')) = length (snd (stacks self w))"
    using W(4) inv by simp
  ultimately show ?case
    using W(2,3) by (intro exI [of _ w'] exI [of _ "ms @ [m]"]) simp
qed

text \<open>
  Claim C2, as the code has it.  With tracking enabled and a function that has a
  \<open>__name__\<close>, when the underlying callable raises a failure \<open>e\<close> and the tracker's stacks
  hold the call's pending entry at that moment, the wrapper still calls \<open>_exit\<close> with the
  function's name and the call's arguments, and exactly one record is handed to the
  logger after whatever the body logged.  Then the wrapper raises \<open>e\<close> itself when
  \<open>logger.log\<close> returned normally, and the logger's own failure when \<open>logger.log\<close> raised.
  With a logger that never raises, a failure raised under a chain of instrumented callers
  reaches the top unchanged, after one record for the failing call and one for each
  caller, innermost first.
\<close>

theorem wrapper_logs_then_reraises:
  assumes "do_time_tracking self" and "name function = Some n"
  shows
    "(\<forall>e w1 es t0 ts p c.
        call function pos kw (enter self w) = (Inl e, w1) \<and> wf_tracker self w1 \<and>
        stacks self w1 = (es @ [t0], ts @ [p, c]) \<longrightarrow>
        call (time_track self function) pos kw w =
          (Inl (case logger self
                  (w1\<lparr>reads := Suc (reads w1),
                      heap := (heap w1)[entering_times self := es,
                                total_times self := ts @ [p + (clock w1 (reads w1) - t0)]]\<rparr>)
                  \<lparr>function_name = n, args = pos, kwargs = kw,
                   total_time = clock w1 (reads w1) - t0,
                   partial_time = (clock w1 (reads w1) - t0) - c\<rparr>
                of None \<Rightarrow> e | Some e' \<Rightarrow> e'),
           w1\<lparr>reads := Suc (reads w1),
              heap := (heap w1)[entering_times self := es,
                        total_times self := ts @ [p + (clock w1 (reads w1) - t0)]],
              logged := logged w1 @
                [\<lparr>function_name = n, args = pos, kwargs = kw,
                  total_time = clock w1 (reads w1) - t0,
                  partial_time = (clock w1 (reads w1) - t0) - c\<rparr>]\<rparr>))
     \<and>
     (\<forall>e w1 ns.
        (\<forall>w m. logger self w m = None) \<and> wf_tracker self w \<and> length_invariant self w \<and>
        call function pos kw ((enter self ^^ Suc (length ns)) w) = (Inl e, w1) \<and>
        wf_tracker self w1 \<and>
        length (fst (stacks self w1)) = length (fst (stacks self w)) + Suc (length ns) \<and>
        length (snd (stacks self w1)) = length (snd (stacks self w)) + Suc (length ns) \<longrightarrow>
        (\<exists>w' ms. call (ancestors self ns (time_track self function)) pos kw w = (Inl e, w') \<and>
           logged w' = logged w1 @ ms \<and>
           map function_name ms = n # rev ns))"
proof -
  have 1: "call (time_track self function) pos kw w =
          (Inl (case logger self
                  (w1\<lparr>reads := Suc (reads w1),
                      heap := (heap w1)[entering_times self := es,
                                total_times self := ts @ [p + (clock w1 (reads w1) - t0)]]\<rparr>)
                  \<lparr>function_name = n, args = pos, kwargs = kw,
                   total_time = clock w1 (reads w1) - t0,
                   partial_time = (clock w1 (reads w1) - t0) - c\<rparr>
                of None \<Rightarrow> e | Some e' \<Rightarrow> e'),
           w1\<lparr>reads := Suc (reads w1),
              heap := (heap w1)[entering_times self := es,
                        total_times self := ts @ [p + (clock w1 (reads w1) - t0)]],
              logged := logged w1 @
                [\<lparr>function_name = n, args = pos, kwargs = kw,
                  total_time = clock w1 (reads w1) - t0,
                  partial_time = (clock w1 (reads w1) - t0) - c\<rparr>]\<rparr>)"
    if "call function pos kw (enter self w) = (Inl e, w1)" "wf_tracker self w1"
      "stacks self w1 = (es @ [t0], ts @ [p, c])" for e w1 es t0 ts p c
    using assms(1) wrapped_named [OF assms(2) that]
    by (simp add: time_track_def split: option.splits)
  have 2: "\<exists>w' ms. call (ancestors self ns (time_track self function)) pos kw w = (Inl e, w') \<and>
           logged w' = logged w1 @ ms \<and> map function_name ms = n # rev ns"
    if quiet: "\<forall>w m. logger self w m = None" and wf: "wf_tracker self w"
      and inv: "length_invariant self w"
      and B: "call function pos kw ((enter self ^^ Suc (length ns)) w) = (Inl e, w1)"
      and wf1: "wf_tracker self w1"
      and L1: "length (fst (stacks self w1)) = length (fst (stacks self w)) + Suc (length ns)"
      and L2: "length (snd (stacks self w1)) = length (snd (stacks self w)) + Suc (length ns)"
    for e w1 ns
  proof -
    let ?wk = "(enter self ^^ length ns) w"
    from B have B': "call function pos kw (enter self ?wk) = (Inl e, w1)"
      by simp
    from inv have I: "length (snd (stacks self w)) = Suc (length (fst (stacks self w)))"
      by (simp add: length_invariant_def stacks_def)
    from L1 have L1': "length (fst (stacks self w1)) = Suc (length (fst (stacks self w)) + length ns)"
      by simp
    from L2 I have L2': "length (snd (stacks self w1)) = Suc (Suc (length (fst (stacks self w)) + length ns))"
      by simp
    from wrapped_raises_quiet [OF quiet assms(2) B' wf1 L1' L2']
    obtain w1' m where W: "wrapped self function pos kw ?wk = (Inl e, w1')" "wf_tracker self w1'"
        "length (fst (stacks self w1')) = length (fst (stacks self w)) + length ns"
        "length (snd (stacks self w1')) = Suc (length (fst (stacks self w)) + length ns)"
        "logged w1' = logged w1 @ [m]" "function_name m = n"
      by blast
    have C: "call (time_track self function) pos kw ?wk = (Inl e, w1')"
      using assms(1) W(1) by (simp add: time_track_def)
    from W(4) I have L2'': "length (snd (stacks self w1')) = length (snd (stacks self w)) + length ns"
      by simp
    from ancestors_raise [OF quiet assms(1) wf inv C W(2) W(3) L2'']
    obtain w' ms where A: "call (ancestors self ns (time_track self function)) pos kw w = (Inl e, w')"
        "logged w' = logged w1' @ ms" "map function_name ms = rev ns"
      by blast
    from A W(5,6) show ?thesis
      by (intro exI [of _ w'] exI [of _ "m # ms"]) simp
  qed
  from 1 2 show ?thesis by blast
qed

theorem wrapper_logs_then_reraises_witness:
  "do_time_tracking (time_tracker :: val TimeTracker) \<and>
   name (error_fun_function :: val callable) = Some ''error_fun'' \<and>
   call error_fun_function [] [] (enter time_tracker (examples_world real))
     = (Inl (Exception ''Booo''), enter time_tracker (examples_world real)) \<and>
   wf_tracker time_tracker (enter time_tracker (examples_world real :: val world)) \<and>
   stacks time_tracker (enter time_tracker (examples_world real :: val world))
     = ([] @ [0], [] @ [0, 0]) \<and>
   fst (call (time_track time_tracker error_fun_function) [] [] (examples_world real))
     = Inl (Exception ''Booo'') \<and>
   map function_name
     (logged (snd (call (time_track time_tracker error_fun_function) [] [] (examples_world real))))
     = [''error_fun''] \<and>
   fst (call (ancestors time_tracker [''error_fun_caller''] (time_track time_tracker error_fun_function))
          [] [] (examples_world real))
     = Inl (Exception ''Booo'') \<and>
   map function_name
     (logged (snd (call (ancestors time_tracker [''error_fun_caller'']
                           (time_track time_tracker error_fun_function))
                     [] [] (examples_world real))))
     = [''error_fun'', ''error_fun_caller'']"
proof -
  let ?t = "time_tracker :: val TimeTracker"
  let ?w = "examples_world real :: val world"
  let ?w1 = "enter ?t ?w"
  let ?w2 = "(enter ?t ^^ Suc (length [''error_fun_caller''])) ?w"
  have on: "do_time_tracking ?t"
    by (simp add: examples_defs)
  have n: "name (error_fun_function :: val callable) = Some ''error_fun''"
    by (simp add: error_fun_function_def)
  have b: "call error_fun_function [] [] ?w1 = (Inl (Exception ''Booo''), ?w1)"
    by (simp add: error_fun_function_def)
  have wf: "wf_tracker ?t ?w"
    by (simp add: examples_defs wf_tracker_def)
  have wf1: "wf_tracker ?t ?w1"
    by (rule wf_tracker_enter [OF wf])
  have s: "stacks ?t ?w = ([], [0])"
    by (simp add: examples_defs stacks_def)
  have s1: "stacks ?t ?w1 = ([] @ [0], [] @ [0, 0])"
    by (simp add: stacks_enter [OF wf] s) (simp add: examples_defs)
  have l1: "logged ?w1 = []"
    by (simp add: examples_defs run_defs)
  note t = wrapper_logs_then_reraises [OF on n, of "[]" "[]" ?w]
  from t [THEN conjunct1, THEN spec [of _ "Exception ''Booo''"], THEN spec [of _ ?w1],
      THEN spec [of _ "[]"], THEN spec [of _ 0], THEN spec [of _ "[]"], THEN spec [of _ 0],
      THEN spec [of _ 0]] b wf1 s1
  have c1: "fst (call (time_track ?t error_fun_function) [] [] ?w) = Inl (Exception ''Booo'')"
    and c2: "map function_name (logged (snd (call (time_track ?t error_fun_function) [] [] ?w)))
       = [''error_fun'']"
    by (simp_all add: l1) (simp_all add: examples_defs)
  have quiet: "\<forall>w m. logger ?t w m = None"
    by (simp add: examples_defs)
  have inv: "length_invariant ?t ?w"
    by (simp add: examples_defs length_invariant_def)
  have w2: "?w2 = enter ?t ?w1"
    by simp
  have b2: "call error_fun_function [] [] ?w2 = (Inl (Exception ''Booo''), ?w2)"
    by (simp add: error_fun_function_def)
  have wf2: "wf_tracker ?t ?w2"
    unfolding w2 by (rule wf_tracker_enter [OF wf1])
  have s2: "stacks ?t ?w2 = ([0, 1], [0, 0, 0])"
    unfolding w2 by (simp add: stacks_enter [OF wf1] s1) (simp add: examples_defs run_defs)
  have l2: "logged ?w2 = []"
    unfolding w2 by (simp add: examples_defs run_defs)
  from t [THEN conjunct2, THEN spec [of _ "Exception ''Booo''"], THEN spec [of _ ?w2],
      THEN spec [of _ "[''error_fun_caller'']"]]
    quiet wf inv b2 wf2 s2 s
  obtain w' ms where r:
    "call (ancestors ?t [''error_fun_caller''] (time_track ?t error_fun_function)) [] [] ?w
       = (Inl (Exception ''Booo''), w')"
    "logged w' = logged ?w2 @ ms"
    "map function_name ms = ''error_fun'' # rev [''error_fun_caller'']"
    by auto
  from r l2
  have c3: "fst (call (ancestors ?t [''error_fun_caller''] (time_track ?t error_fun_function))
          [] [] ?w) = Inl (Exception ''Booo'')"
   and c4: "map function_name
     (logged (snd (call (ancestors ?t [''error_fun_caller''] (time_track ?t error_fun_function))
                     [] [] ?w))) = [''error_fun'', ''error_fun_caller'']"
    by simp_all
  from on n b wf1 s1 c1 c2 c3 c4 show ?thesis
    by blast
qed

text \<open>
  As stated for every wrapped callable, the claim fails in two ways.  Where the logger
  raises, the \<open>finally\<close> block's failure takes the place of the one in flight: here
  \<open>error_fun\<close> of the script is wrapped by a tracker whose logger always raises.  And for a
  callable without \<open>__name__\<close>, evaluating \<open>function.__name__\<close> raises \<open>AttributeError\<close>
  in its place: \<open>_exit\<close> is not called, nothing is logged and the entry stays on the
  stack.
\<close>

theorem wrapper_failure_replaced_counterexample:
  "fst (call error_fun_function [] []
          (enter (fst (failing_init real)) (snd (failing_init real))))
     = Inl (Exception ''Booo'') \<and>
   fst (call (time_track (fst (failing_init real)) error_fun_function) [] []
          (snd (failing_init real)))
     = Inl (Exception ''log failed'') \<and>
   fst (call (time_track (fst (failing_init real)) error_fun_function) [] []
          (snd (failing_init real)))
     \<noteq> Inl (Exception ''Booo'') \<and>
   fst (call (nameless error_fun_function) [] [] (enter time_tracker (examples_world real)))
     = Inl (Exception ''Booo'') \<and>
   call (time_track time_tracker (nameless error_fun_function)) [] [] (examples_world real)
     = (Inl (AttributeError ''__name__''),
        \<lparr>heap = [[], [0], [0], [0, 0]], clock = real, reads = 1, logged = []\<rparr>)"
  by (simp add: failing_init_def failing_logger_def examples_defs time_track_def
      wrapped_def error_fun_function_def nameless_def run_defs)

section \<open>Sequences of operations\<close>

lemma stacks_exit_empty:
  "fst (stacks self w) = [] \<Longrightarrow> snd (exit self fn_name pos kw w) = w"
  by (simp add: stacks_def exit_empty)

lemma stacks_exit_nonempty:
  assumes "wf_tracker self w" and "stacks self w = (es @ [e], ts @ [p, c])"
  shows "stacks self (snd (exit self fn_name pos kw w)) = (es, ts @ [p + (clock w (reads w) - e)])"
    and "logged (snd (exit self fn_name pos kw w)) = logged w @
           [\<lparr>function_name = fn_name, args = pos, kwargs = kw,
             total_time = clock w (reads w) - e, partial_time = (clock w (reads w) - e) - c\<rparr>]"
    and "reads (snd (exit self fn_name pos kw w)) = Suc (reads w)"
proof -
  from assms(2) have E: "heap w ! entering_times self = es @ [e]"
    and T: "heap w ! total_times self = ts @ [p, c]"
    by (simp_all add: stacks_def)
  note ex = exit_nonempty [OF assms(1) E T]
  show "stacks self (snd (exit self fn_name pos kw w)) = (es, ts @ [p + (clock w (reads w) - e)])"
    by (simp add: ex snd_logger_log stacks_popped [OF assms(1)])
  show "logged (snd (exit self fn_name pos kw w)) = logged w @
           [\<lparr>function_name = fn_name, args = pos, kwargs = kw,
             total_time = clock w (reads w) - e, partial_time = (clock w (reads w) - e) - c\<rparr>]"
    by (simp add: ex snd_logger_log)
  show "reads (snd (exit self fn_name pos kw w)) = Suc (reads w)"
    by (simp add: ex snd_logger_log)
qed

lemma split_stacks':
  assumes "length_invariant self w" and "fst (stacks self w) \<noteq> []"
  obtains es e ts p c where "stacks self w = (es @ [e], ts @ [p, c])" and "length ts = length es"
  using split_stacks [of self w] assms by (auto simp: stacks_def)

lemma length_invariant_stacks:
  "length_invariant self w \<longleftrightarrow> length (snd (stacks self w)) = Suc (length (fst (stacks self w)))"
  by (simp add: length_invariant_def stacks_def)

lemma wf_tracker_step: "wf_tracker t w \<Longrightarrow> wf_tracker t (step self x w)"
  by (cases x) (simp_all add: wf_tracker_enter wf_tracker_exit)

lemma length_invariant_step:
  assumes "wf_tracker self w" and "length_invariant self w"
  shows "length_invariant self (step self x w)"
proof (cases x)
  case Enter
  with assms show ?thesis
    by (simp add: length_invariant_stacks stacks_enter)
next
  case (Exit fn_name pos kw)
  show ?thesis
  proof (cases "fst (stacks self w) = []")
    case True
    with assms Exit show ?thesis by (simp add: stacks_exit_empty)
  next
    case False
    with assms(2) obtain es e ts p c
      where S: "stacks self w = (es @ [e], ts @ [p, c])" and L: "length ts = length es"
      by (rule split_stacks')
    from stacks_exit_nonempty(1) [OF assms(1) S] L Exit show ?thesis
      by (simp add: length_invariant_stacks)
  qed
qed

lemma wf_tracker_exec: "wf_tracker t w \<Longrightarrow> wf_tracker t (exec self xs w)"
  by (induction xs arbitrary: w) (simp_all add: wf_tracker_step)

lemma length_invariant_exec:
  "wf_tracker self w \<Longrightarrow> length_invariant self w \<Longrightarrow> length_invariant self (exec self xs w)"
  by (induction xs arbitrary: w) (simp_all add: wf_tracker_step length_invariant_step)

lemma exec_append: "exec self (xs @ ys) w = exec self ys (exec self xs w)"
  by (induction xs arbitrary: w) simp_all

lemma exit_removes_one:
  assumes "wf_tracker self w" and "length_invariant self w" and "fst (stacks self w) \<noteq> []"
  shows "fst (stacks self (snd (exit self fn_name pos kw w))) = butlast (fst (stacks self w))"
    and "Suc (length (snd (stacks self (snd (exit self fn_name pos kw w))))) = length (snd (stacks self w))"
proof -
  from assms(2,3) obtain es e ts p c
    where S: "stacks self w = (es @ [e], ts @ [p, c])" and L: "length ts = length es"
    by (rule split_stacks')
  from stacks_exit_nonempty(1) [OF assms(1) S] S
  show "fst (stacks self (snd (exit self fn_name pos kw w))) = butlast (fst (stacks self w))"
    and "Suc (length (snd (stacks self (snd (exit self fn_name pos kw w))))) = length (snd (stacks self w))"
    by simp_all
qed

lemma stacks_init_isolated:
  "stacks (fst (init lg dtt True w)) (snd (init lg dtt True w)) = ([], [0])"
  by (simp add: init_def stacks_def nth_append)

lemma stacks_init_shared:
  "stacks (fst (init lg dtt False (module_init c))) (snd (init lg dtt False (module_init c))) = ([], [0])"
  by (simp add: init_def stacks_def module_init_def time_tracker_global_entering_times_def
      time_tracker_global_total_times_def)

text \<open>
  Claim C4.  The length invariant \<open>len(total_times) = len(entering_times) + 1\<close> holds
  after every operation of every sequence of \<open>_enter\<close> and \<open>_exit\<close> calls started in a
  state where it holds.  \<open>_enter\<close> appends one element to each list (the clock reading and
  a zero accumulator); \<open>_exit\<close>, on a non-empty entry stack, removes one element from
  each.  A fresh isolated tracker, and the shared stacks of a freshly loaded module, have
  no entry timestamp and the root accumulator alone.
\<close>

theorem length_invariant_maintained:
  assumes "wf_tracker self w" and "length_invariant self w"
  shows "(\<forall>n \<le> length xs. length_invariant self (exec self (take n xs) w)) \<and>
     stacks self (enter self w) =
       (fst (stacks self w) @ [clock w (reads w)], snd (stacks self w) @ [0]) \<and>
     (fst (stacks self w) \<noteq> [] \<longrightarrow>
        fst (stacks self (snd (exit self fn_name pos kw w))) = butlast (fst (stacks self w)) \<and>
        Suc (length (snd (stacks self (snd (exit self fn_name pos kw w)))))
          = length (snd (stacks self w))) \<and>
     stacks (fst (init lg dtt True w0)) (snd (init lg dtt True w0)) = ([], [0]) \<and>
     length_invariant (fst (init lg dtt True w0)) (snd (init lg dtt True w0)) \<and>
     stacks (fst (init lg dtt False (module_init c))) (snd (init lg dtt False (module_init c)))
       = ([], [0]) \<and>
     length_invariant (fst (init lg dtt False (module_init c)))
       (snd (init lg dtt False (module_init c)))"
proof -
  have 1: "\<forall>n \<le> length xs. length_invariant self (exec self (take n xs) w)"
    using assms by (simp add: length_invariant_exec)
  have 2: "stacks self (enter self w) =
       (fst (stacks self w) @ [clock w (reads w)], snd (stacks self w) @ [0])"
    by (rule stacks_enter [OF assms(1)])
  have 3: "fst (stacks self w) \<noteq> [] \<longrightarrow>
        fst (stacks self (snd (exit self fn_name pos kw w))) = butlast (fst (stacks self w)) \<and>
        Suc (length (snd (stacks self (snd (exit self fn_name pos kw w)))))
          = length (snd (stacks self w))"
    using exit_removes_one [OF assms] by blast
  have 4: "length_invariant (fst (init lg dtt True w0)) (snd (init lg dtt True w0))"
    by (simp add: length_invariant_stacks stacks_init_isolated)
  have 5: "length_invariant (fst (init lg dtt False (module_init c)))
       (snd (init lg dtt False (module_init c)))"
    by (simp add: length_invariant_stacks stacks_init_shared)
  from 1 2 3 4 5 stacks_init_isolated [of lg dtt w0] stacks_init_shared [of lg dtt c]
  show ?thesis by blast
qed

theorem length_invariant_maintained_witness:
  "wf_tracker time_tracker (enter time_tracker (examples_world real :: val world)) \<and>
   length_invariant time_tracker (enter time_tracker (examples_world real :: val world)) \<and>
   (3::nat) \<le> length [Enter, Exit ''dodo'' [IntV 1, FloatV 0.3] [], Enter,
                        Exit ''dodo'' [IntV 2, FloatV 0.4] [], Exit ''boo'' [IntV 1, IntV 2] []] \<and>
   length_invariant time_tracker
     (exec time_tracker
        (take 3 [Enter, Exit ''dodo'' [IntV 1, FloatV 0.3] [], Enter,
                 Exit ''dodo'' [IntV 2, FloatV 0.4] [], Exit ''boo'' [IntV 1, IntV 2] []])
        (enter time_tracker (examples_world real :: val world))) \<and>
   stacks time_tracker (enter time_tracker (enter time_tracker (examples_world real :: val world)))
     = ([0] @ [1], [0, 0] @ [0]) \<and>
   fst (stacks time_tracker (enter time_tracker (examples_world real :: val world))) \<noteq> [] \<and>
   fst (stacks time_tracker
          (snd (exit time_tracker ''boo'' [IntV 1, IntV 2] []
                  (enter time_tracker (examples_world real :: val world))))) = butlast [0] \<and>
   Suc (length (snd (stacks time_tracker
          (snd (exit time_tracker ''boo'' [IntV 1, IntV 2] []
                  (enter time_tracker (examples_world real :: val world))))))) = length [0::real, 0] \<and>
   stacks (time_tracker :: val TimeTracker) (examples_world real) = ([], [0])"
proof -
  let ?t = "time_tracker :: val TimeTracker"
  let ?w = "enter ?t (examples_world real)"
  let ?xs = "[Enter, Exit ''dodo'' [IntV 1, FloatV 0.3] [], Enter,
              Exit ''dodo'' [IntV 2, FloatV 0.4] [], Exit ''boo'' [IntV 1, IntV 2] []]"
  have h1: "wf_tracker ?t ?w"
    by (simp add: examples_defs wf_tracker_def length_heap_enter)
  have s: "stacks ?t ?w = ([0], [0, 0])"
    by (simp add: examples_defs stacks_def run_defs)
  have c: "clock ?w (reads ?w) = 1"
    by (simp add: examples_defs run_defs)
  have h2: "length_invariant ?t ?w"
    using s by (simp add: length_invariant_stacks)
  have n: "(3::nat) \<le> length ?xs"
    by simp
  have i: "stacks ?t (examples_world real) = ([], [0])"
    by (simp add: examples_defs stacks_def)
  note t = length_invariant_maintained [OF h1 h2, of ?xs "''boo''" "[IntV 1, IntV 2]" "[]"
      Logger True "module_init real" real]
  from t [THEN conjunct1, rule_format, OF n]
  have 1: "length_invariant ?t (exec ?t (take 3 ?xs) ?w)" .
  from t [THEN conjunct2, THEN conjunct1] s c
  have 2: "stacks ?t (enter ?t ?w) = ([0] @ [1], [0, 0] @ [0])"
    by simp
  from s have ne: "fst (stacks ?t ?w) \<noteq> []"
    by simp
  from t [THEN conjunct2, THEN conjunct2, THEN conjunct1, rule_format, OF ne] s
  have 3: "fst (stacks ?t (snd (exit ?t ''boo'' [IntV 1, IntV 2] [] ?w))) = butlast [0]"
    and 4: "Suc (length (snd (stacks ?t (snd (exit ?t ''boo'' [IntV 1, IntV 2] [] ?w)))))
       = length [0::real, 0]"
    by simp_all
  from h1 h2 n 1 2 ne 3 4 i show ?thesis
    by blast
qed

lemma depth_exec:
  "wf_tracker self w \<Longrightarrow> length_invariant self w \<Longrightarrow> nesting xs d = Some d' \<Longrightarrow>
   d \<le> length (fst (stacks self w)) \<Longrightarrow>
   length (fst (stacks self (exec self xs w))) + d = length (fst (stacks self w)) + d'"
proof (induction xs d arbitrary: w rule: nesting.induct)
  case (1 d)
  then show ?case by simp
next
  case (2 xs d)
  have "length (fst (stacks self (exec self xs (enter self w)))) + Suc d
      = length (fst (stacks self (enter self w))) + d'"
    using 2 by (intro "2.IH") (simp_all add: wf_tracker_enter length_invariant_step [of self w Enter, simplified] stacks_enter)
  with "2.prems"(1) show ?case
    by (simp add: stacks_enter)
next
  case (3 fn_name pos kw xs d)
  from "3.prems"(3) obtain d0 where d: "d = Suc d0" and n: "nesting xs d0 = Some d'"
    by (cases d) simp_all
  let ?w' = "snd (exit self fn_name pos kw w)"
  from "3.prems"(4) d have ne: "fst (stacks self w) \<noteq> []"
    by auto
  note r = exit_removes_one(1) [OF "3.prems"(1,2) ne, of fn_name pos kw]
  have wf': "wf_tracker self ?w'"
    by (rule wf_tracker_exit [OF "3.prems"(1)])
  have inv': "length_invariant self ?w'"
    using length_invariant_step [OF "3.prems"(1,2), of "Exit fn_name pos kw"] by simp
  have le: "d0 \<le> length (fst (stacks self ?w'))"
    using r "3.prems"(4) d by simp
  from "3.IH" [OF d wf' inv' n le] r ne d show ?case
    by (cases "fst (stacks self w)") simp_all
qed

text \<open>
  Claim C7.  From every tracker state, a properly nested sequence of \<open>_enter\<close>/\<open>_exit\<close>
  pairs leaves the entry stack at the depth it found, and the accumulator stack too; in
  particular a single \<open>_enter\<close> followed by a single \<open>_exit\<close> restores both lengths.
\<close>

theorem nested_calls_restore_depth:
  assumes "wf_tracker self w" and "length_invariant self w" and "properly_nested xs"
  shows "length (fst (stacks self (exec self xs w))) = length (fst (stacks self w)) \<and>
         length (snd (stacks self (exec self xs w))) = length (snd (stacks self w)) \<and>
         length (fst (stacks self (snd (exit self fn_name pos kw (enter self w)))))
           = length (fst (stacks self w)) \<and>
         length (snd (stacks self (snd (exit self fn_name pos kw (enter self w)))))
           = length (snd (stacks self w))"
proof -
  have *: "length (fst (stacks self (exec self ys w))) = length (fst (stacks self w)) \<and>
           length (snd (stacks self (exec self ys w))) = length (snd (stacks self w))"
    if "properly_nested ys" for ys
  proof -
    from that have "nesting ys 0 = Some 0"
      by (simp add: properly_nested_def)
    from depth_exec [OF assms(1,2) this]
    have 1: "length (fst (stacks self (exec self ys w))) = length (fst (stacks self w))"
      by simp
    from length_invariant_exec [OF assms(1,2), of ys] assms(2) 1 show ?thesis
      by (simp add: length_invariant_stacks)
  qed
  have "properly_nested [Enter, Exit fn_name pos kw]"
    by (simp add: properly_nested_def)
  from * [OF this] * [OF assms(3)] show ?thesis
    by simp
qed

theorem nested_calls_restore_depth_witness:
  "wf_tracker time_tracker (enter time_tracker (examples_world real :: val world)) \<and>
   length_invariant time_tracker (enter time_tracker (examples_world real :: val world)) \<and>
   properly_nested [Enter, Exit ''dodo'' [IntV 1, FloatV 0.3] [], Enter,
                    Exit ''dodo'' [IntV 2, FloatV 0.4] []] \<and>
   length (fst (stacks time_tracker
     (exec time_tracker
        [Enter, Exit ''dodo'' [IntV 1, FloatV 0.3] [], Enter, Exit ''dodo'' [IntV 2, FloatV 0.4] []]
        (enter time_tracker (examples_world real :: val world))))) = 1 \<and>
   length (snd (stacks time_tracker
     (exec time_tracker
        [Enter, Exit ''dodo'' [IntV 1, FloatV 0.3] [], Enter, Exit ''dodo'' [IntV 2, FloatV 0.4] []]
        (enter time_tracker (examples_world real :: val world))))) = 2 \<and>
   length (fst (stacks time_tracker
     (snd (exit time_tracker ''dodo'' [IntV 1, FloatV 0.3] []
        (enter time_tracker (enter time_tracker (examples_world real :: val world))))))) = 1"
proof -
  let ?t = "time_tracker :: val TimeTracker"
  let ?w = "enter ?t (examples_world real)"
  let ?xs = "[Enter, Exit ''dodo'' [IntV 1, FloatV 0.3] [], Enter,
              Exit ''dodo'' [IntV 2, FloatV 0.4] []]"
  have h1: "wf_tracker ?t ?w"
    by (simp add: examples_defs wf_tracker_def length_heap_enter)
  have s: "stacks ?t ?w = ([0], [0, 0])"
    by (simp add: examples_defs stacks_def run_defs)
  have h2: "length_invariant ?t ?w"
    using s by (simp add: length_invariant_stacks)
  have h3: "properly_nested ?xs"
    by (simp add: properly_nested_def)
  from nested_calls_restore_depth [OF h1 h2 h3, of "''dodo''" "[IntV 1, FloatV 0.3]" "[]"] s h1 h2 h3
  show ?thesis
    by simp
qed

lemma reads_enter: "reads (enter self w) = Suc (reads w)"
  by (simp add: enter_def time_time_def list_append_def)

lemma root_step:
  assumes wf: "wf_tracker self w" and inv: "length_invariant self w"
  shows "hd (snd (stacks self (step self x w))) =
           foldl (+) (hd (snd (stacks self w))) (top_level_totals self [x] w)"
proof (cases x)
  case Enter
  from inv have "snd (stacks self w) \<noteq> []"
    by (auto simp: length_invariant_stacks)
  with Enter wf show ?thesis
    by (simp add: stacks_enter)
next
  case (Exit fn_name pos kw)
  show ?thesis
  proof (cases "fst (stacks self w) = []")
    case True
    with Exit show ?thesis by (simp add: stacks_exit_empty)
  next
    case False
    with inv obtain es e ts p c
      where S: "stacks self w = (es @ [e], ts @ [p, c])" and L: "length ts = length es"
      by (rule split_stacks')
    note X = stacks_exit_nonempty [OF wf S, of fn_name pos kw]
    show ?thesis
    proof (cases "es = []")
      case True
      with L have "ts = []" by simp
      with True Exit S X show ?thesis by simp
    next
      case False
      with L have "ts \<noteq> []" by auto
      with False Exit S X show ?thesis by simp
    qed
  qed
qed

lemma top_level_totals_Cons:
  "top_level_totals self (x # xs) w =
     top_level_totals self [x] w @ top_level_totals self xs (step self x w)"
  by (cases x) simp_all

lemma root_exec:
  "wf_tracker self w \<Longrightarrow> length_invariant self w \<Longrightarrow>
   hd (snd (stacks self (exec self xs w))) =
     foldl (+) (hd (snd (stacks self w))) (top_level_totals self xs w)"
proof (induction xs arbitrary: w)
  case Nil
  then show ?case by simp
next
  case (Cons x xs)
  have "hd (snd (stacks self (exec self xs (step self x w)))) =
     foldl (+) (hd (snd (stacks self (step self x w)))) (top_level_totals self xs (step self x w))"
    using Cons.prems by (intro Cons.IH wf_tracker_step length_invariant_step)
  with root_step [OF Cons.prems, of x] show ?case
    by (simp add: top_level_totals_Cons [of self x xs])
qed

lemma foldl_add_nonneg:
  "\<forall>t \<in> set ts. (0::real) \<le> t \<Longrightarrow> r \<le> foldl (+) r ts"
proof (induction ts arbitrary: r)
  case Nil
  then show ?case by simp
next
  case (Cons t ts)
  from Cons.prems have "r \<le> r + t"
    by simp
  also from Cons.prems have "r + t \<le> foldl (+) (r + t) ts"
    by (intro Cons.IH) simp
  finally show ?case by simp
qed

lemma forward_clock_step:
  assumes wf: "wf_tracker self w" and inv: "length_invariant self w"
    and fc: "forward_clock self w"
  shows "forward_clock self (step self x w)"
    and "\<forall>t \<in> set (top_level_totals self [x] w). 0 \<le> t"
proof -
  from fc have mono: "\<And>i j. i \<le> j \<Longrightarrow> clock w i \<le> clock w j"
    and old: "\<And>t. t \<in> set (fst (stacks self w)) \<Longrightarrow> t \<le> clock w (reads w)"
    by (simp_all add: forward_clock_def)
  have next_reading: "clock w (reads w) \<le> clock w (Suc (reads w))"
    by (rule mono) simp
  show "forward_clock self (step self x w)"
  proof (cases x)
    case Enter
    have "t \<le> clock w (Suc (reads w))" if "t \<in> set (fst (stacks self w) @ [clock w (reads w)])" for t
      using that old [of t] next_reading by auto
    with Enter mono show ?thesis
      by (simp add: forward_clock_def stacks_enter [OF wf] clock_enter reads_enter)
  next
    case (Exit fn_name pos kw)
    show ?thesis
    proof (cases "fst (stacks self w) = []")
      case True
      with Exit fc show ?thesis by (simp add: stacks_exit_empty)
    next
      case False
      with inv obtain es e ts p c
        where S: "stacks self w = (es @ [e], ts @ [p, c])" and L: "length ts = length es"
        by (rule split_stacks')
      note X = stacks_exit_nonempty [OF wf S, of fn_name pos kw]
      have "t \<le> clock w (Suc (reads w))" if "t \<in> set es" for t
        using that old [of t] next_reading S by auto
      with Exit mono X show ?thesis
        by (simp add: forward_clock_def clock_exit)
    qed
  qed
  show "\<forall>t \<in> set (top_level_totals self [x] w). 0 \<le> t"
  proof (cases x)
    case Enter
    then show ?thesis by simp
  next
    case (Exit fn_name pos kw)
    show ?thesis
    proof (cases "fst (stacks self w) = []")
      case True
      with Exit show ?thesis by simp
    next
      case False
      with inv obtain es e ts p c
        where S: "stacks self w = (es @ [e], ts @ [p, c])" and L: "length ts = length es"
        by (rule split_stacks')
      note X = stacks_exit_nonempty [OF wf S, of fn_name pos kw]
      from old [of e] S have "e \<le> clock w (reads w)"
        by simp
      with Exit X show ?thesis
        by simp
    qed
  qed
qed

lemma top_level_totals_nonneg:
  "wf_tracker self w \<Longrightarrow> length_invariant self w \<Longrightarrow> forward_clock self w \<Longrightarrow>
   forward_clock self (exec self xs w) \<and> (\<forall>t \<in> set (top_level_totals self xs w). 0 \<le> t)"
proof (induction xs arbitrary: w)
  case Nil
  then show ?case by simp
next
  case (Cons x xs)
  note s = forward_clock_step [OF Cons.prems, of x]
  have "forward_clock self (exec self xs (step self x w)) \<and>
        (\<forall>t \<in> set (top_level_totals self xs (step self x w)). 0 \<le> t)"
    using Cons.prems s(1) by (intro Cons.IH wf_tracker_step length_invariant_step)
  with s(2) show ?case
    by (auto simp: top_level_totals_Cons [of self x xs])
qed

lemma snd_exit_same_lists:
  assumes "entering_times t2 = entering_times self" and "total_times t2 = total_times self"
  shows "snd (exit t2 fn_name pos kw w) = snd (exit self fn_name pos kw w)"
proof (cases "list_pop (entering_times self) w")
  case (Inl e)
  with assms show ?thesis by (simp add: exit_def)
next
  case (Inr a)
  then obtain t0 wa where A: "list_pop (entering_times self) w = Inr (t0, wa)"
    by (cases a) simp
  show ?thesis
  proof (cases "list_pop (total_times self) wa")
    case (Inl e)
    with assms A show ?thesis by (simp add: exit_def)
  next
    case (Inr b)
    then obtain c0 wb where B: "list_pop (total_times self) wa = Inr (c0, wb)"
      by (cases b) simp
    show ?thesis
    proof (cases "list_iadd_last (total_times self) (clock wb (reads wb) - t0)
                    (wb\<lparr>reads := Suc (reads wb)\<rparr>)")
      case (Inl e)
      with assms A B show ?thesis by (simp add: exit_def time_time_def)
    next
      case (Inr wd)
      with assms A B show ?thesis
        by (simp add: exit_def time_time_def snd_logger_log Let_def)
    qed
  qed
qed

lemma step_same_lists:
  assumes "entering_times t2 = entering_times self" and "total_times t2 = total_times self"
  shows "step t2 x w = step self x w"
  by (cases x) (simp_all add: enter_def assms snd_exit_same_lists [OF assms])

lemma exec_same_lists:
  assumes "entering_times t2 = entering_times self" and "total_times t2 = total_times self"
  shows "exec t2 xs w = exec self xs w"
  by (induction xs arbitrary: w) (simp_all add: step_same_lists [OF assms])

lemma top_level_totals_same_lists:
  assumes "entering_times t2 = entering_times self" and "total_times t2 = total_times self"
  shows "top_level_totals t2 xs w = top_level_totals self xs w"
proof (induction xs arbitrary: w)
  case Nil
  then show ?case by simp
next
  case (Cons x xs)
  from assms have s: "stacks t2 w = stacks self w" for w
    by (simp add: stacks_def)
  from Cons show ?case
    by (cases x) (simp_all add: s enter_def assms snd_exit_same_lists [OF assms])
qed

text \<open>
  Claim C9, as the code has it.  No operation removes the root accumulator: after every
  sequence of operations the accumulator stack is not empty, and its first element is
  what it was before with the \<open>total_time\<close> of each top-level call the sequence completed
  added to it, one after the other in the order of completion; nothing else is added to
  it and nothing resets it.  Whenever the entry stack is empty the accumulator stack is
  that one value; for a fresh tracker it starts at zero.  Under a clock that does not run
  backwards every such \<open>total_time\<close> is non-negative, so the root accumulator does not
  decrease as further operations are performed.  Operations made through another tracker
  object that refers to the same two lists have the same effect and count alike.
\<close>

theorem root_accumulator_sums_top_level_calls:
  assumes "wf_tracker self w" and "length_invariant self w"
  shows "snd (stacks self (exec self xs w)) \<noteq> [] \<and>
     hd (snd (stacks self (exec self xs w))) =
       foldl (+) (hd (snd (stacks self w))) (top_level_totals self xs w) \<and>
     (fst (stacks self (exec self xs w)) = [] \<longrightarrow>
        snd (stacks self (exec self xs w)) =
          [foldl (+) (hd (snd (stacks self w))) (top_level_totals self xs w)]) \<and>
     (forward_clock self w \<longrightarrow>
        hd (snd (stacks self (exec self xs w))) \<le> hd (snd (stacks self (exec self (xs @ ys) w)))) \<and>
     hd (snd (stacks (fst (init lg dtt True w0)) (snd (init lg dtt True w0)))) = 0 \<and>
     (entering_times t2 = entering_times self \<and> total_times t2 = total_times self \<longrightarrow>
        exec t2 xs w = exec self xs w \<and>
        top_level_totals t2 xs w = top_level_totals self xs w)"
proof -
  let ?w' = "exec self xs w"
  have wf': "wf_tracker self ?w'"
    by (rule wf_tracker_exec [OF assms(1)])
  have inv': "length_invariant self ?w'"
    by (rule length_invariant_exec [OF assms])
  from inv' have 1: "snd (stacks self ?w') \<noteq> []"
    by (auto simp: length_invariant_stacks)
  note 2 = root_exec [OF assms, of xs]
  have 3: "snd (stacks self ?w') =
             [foldl (+) (hd (snd (stacks self w))) (top_level_totals self xs w)]"
    if "fst (stacks self ?w') = []"
  proof -
    from inv' that have "length (snd (stacks self ?w')) = 1"
      by (simp add: length_invariant_stacks)
    then obtain r where "snd (stacks self ?w') = [r]"
      by (cases "snd (stacks self ?w')") simp_all
    with 2 show ?thesis by simp
  qed
  have 4: "hd (snd (stacks self ?w')) \<le> hd (snd (stacks self (exec self (xs @ ys) w)))"
    if fc: "forward_clock self w"
  proof -
    from top_level_totals_nonneg [OF assms fc, of xs] have fc': "forward_clock self ?w'"
      by simp
    from top_level_totals_nonneg [OF wf' inv' fc', of ys]
    have "hd (snd (stacks self ?w')) \<le>
            foldl (+) (hd (snd (stacks self ?w'))) (top_level_totals self ys ?w')"
      by (intro foldl_add_nonneg) simp
    with root_exec [OF wf' inv', of ys] show ?thesis
      by (simp add: exec_append)
  qed
  have 5: "hd (snd (stacks (fst (init lg dtt True w0)) (snd (init lg dtt True w0)))) = 0"
    by (simp add: stacks_init_isolated)
  have 6: "exec t2 xs w = exec self xs w \<and>
        top_level_totals t2 xs w = top_level_totals self xs w"
    if "entering_times t2 = entering_times self \<and> total_times t2 = total_times self"
    using that exec_same_lists [of t2 self xs w] top_level_totals_same_lists [of t2 self xs w]
    by blast
  from 1 2 3 4 5 6 show ?thesis by blast
qed

text \<open>
  The witness runs the script's first top-level call, \<open>boo(1, 2)\<close> with its two calls of
  \<open>dodo\<close>, on the shared stacks of a freshly loaded module, with the clock reading
  0, 1, 2, ...; the second tracker is another shared one, with a logger that raises.
\<close>

theorem root_accumulator_sums_top_level_calls_witness:
  "wf_tracker (fst (init Logger True False (module_init real :: val world))) (module_init real) \<and>
   length_invariant (fst (init Logger True False (module_init real :: val world)))
     (module_init real) \<and>
   forward_clock (fst (init Logger True False (module_init real :: val world)))
     (module_init real) \<and>
   fst (stacks (fst (init Logger True False (module_init real :: val world)))
     (exec (fst (init Logger True False (module_init real)))
        [Enter, Enter, Exit ''dodo'' [IntV 1, FloatV 0.3] [], Enter,
         Exit ''dodo'' [IntV 2, FloatV 0.4] [], Exit ''boo'' [IntV 1, IntV 2] []]
        (module_init real))) = [] \<and>
   top_level_totals (fst (init Logger True False (module_init real :: val world)))
        [Enter, Enter, Exit ''dodo'' [IntV 1, FloatV 0.3] [], Enter,
         Exit ''dodo'' [IntV 2, FloatV 0.4] [], Exit ''boo'' [IntV 1, IntV 2] []]
        (module_init real) = [5] \<and>
   snd (stacks (fst (init Logger True False (module_init real :: val world)))
     (exec (fst (init Logger True False (module_init real)))
        [Enter, Enter, Exit ''dodo'' [IntV 1, FloatV 0.3] [], Enter,
         Exit ''dodo'' [IntV 2, FloatV 0.4] [], Exit ''boo'' [IntV 1, IntV 2] []]
        (module_init real))) = [foldl (+) 0 [5]] \<and>
   5 \<le> hd (snd (stacks (fst (init Logger True False (module_init real :: val world)))
     (exec (fst (init Logger True False (module_init real)))
        ([Enter, Enter, Exit ''dodo'' [IntV 1, FloatV 0.3] [], Enter,
          Exit ''dodo'' [IntV 2, FloatV 0.4] [], Exit ''boo'' [IntV 1, IntV 2] []]
         @ [Enter, Exit ''fibo'' [IntV 1] []])
        (module_init real)))) \<and>
   exec (fst (init failing_logger True False (module_init real :: val world)))
        [Enter, Enter, Exit ''dodo'' [IntV 1, FloatV 0.3] [], Enter,
         Exit ''dodo'' [IntV 2, FloatV 0.4] [], Exit ''boo'' [IntV 1, IntV 2] []]
        (module_init real)
     = exec (fst (init Logger True False (module_init real)))
        [Enter, Enter, Exit ''dodo'' [IntV 1, FloatV 0.3] [], Enter,
         Exit ''dodo'' [IntV 2, FloatV 0.4] [], Exit ''boo'' [IntV 1, IntV 2] []]
        (module_init real)"
proof -
  let ?w = "module_init real :: val world"
  let ?t = "fst (init Logger True False ?w)"
  let ?t2 = "fst (init failing_logger True False ?w)"
  let ?xs = "[Enter, Enter, Exit ''dodo'' [IntV 1, FloatV 0.3] [], Enter,
              Exit ''dodo'' [IntV 2, FloatV 0.4] [], Exit ''boo'' [IntV 1, IntV 2] []]"
  let ?ys = "[Enter, Exit ''fibo'' [IntV 1] []]"
  note defs = init_def module_init_def time_tracker_global_entering_times_def
    time_tracker_global_total_times_def
  have h1: "wf_tracker ?t ?w"
    by (simp add: defs wf_tracker_def)
  have s: "stacks ?t ?w = ([], [0])"
    by (simp add: defs stacks_def)
  have h2: "length_invariant ?t ?w"
    using s by (simp add: length_invariant_stacks)
  have h3: "forward_clock ?t ?w"
    using s by (simp add: forward_clock_def) (simp add: defs)
  have e: "fst (stacks ?t (exec ?t ?xs ?w)) = []"
    by (simp add: defs stacks_def run_defs)
  have tl: "top_level_totals ?t ?xs ?w = [5]"
    by (simp add: defs stacks_def run_defs)
  have same: "entering_times ?t2 = entering_times ?t \<and> total_times ?t2 = total_times ?t"
    by (simp add: init_def)
  note t = root_accumulator_sums_top_level_calls [OF h1 h2, of ?xs ?ys Logger True ?w ?t2]
  from t [THEN conjunct2, THEN conjunct2, THEN conjunct1, rule_format, OF e]
  have "snd (stacks ?t (exec ?t ?xs ?w)) =
          [foldl (+) (hd (snd (stacks ?t ?w))) (top_level_totals ?t ?xs ?w)]" .
  then have 1: "snd (stacks ?t (exec ?t ?xs ?w)) = [foldl (+) 0 [5]]"
    unfolding tl s by simp
  from t [THEN conjunct2, THEN conjunct2, THEN conjunct2, THEN conjunct1, rule_format, OF h3]
  have "hd (snd (stacks ?t (exec ?t ?xs ?w))) \<le> hd (snd (stacks ?t (exec ?t (?xs @ ?ys) ?w)))" .
  then have 2: "5 \<le> hd (snd (stacks ?t (exec ?t (?xs @ ?ys) ?w)))"
    unfolding 1 by simp
  from t [THEN conjunct2, THEN conjunct2, THEN conjunct2, THEN conjunct2, THEN conjunct2,
      rule_format, OF same]
  have 3: "exec ?t2 ?xs ?w = exec ?t ?xs ?w"
    by blast
  from h1 h2 h3 e tl 1 2 3 show ?thesis
    by blast
qed

text \<open>
  As stated, with a root accumulator that is only ever increased, the claim fails when
  the wall clock is set back during a call: \<open>time.time()\<close> is not monotonic.  Here the
  script's tracker makes one top-level call that enters at reading 5 and exits at
  reading 3; its \<open>total_time\<close> is -2 and the root accumulator goes from 0 down to -2.
\<close>

theorem root_accumulator_decreases_counterexample:
  "stacks time_tracker (examples_world (\<lambda>n. if n = 0 then 5 else 3) :: val world) = ([], [0]) \<and>
   stacks time_tracker
     (exec time_tracker [Enter, Exit ''f'' [] []]
        (examples_world (\<lambda>n. if n = 0 then 5 else 3) :: val world)) = ([], [- 2]) \<and>
   top_level_totals time_tracker [Enter, Exit ''f'' [] []]
        (examples_world (\<lambda>n. if n = 0 then 5 else 3) :: val world) = [- 2] \<and>
   hd (snd (stacks time_tracker
     (exec time_tracker [Enter, Exit ''f'' [] []]
        (examples_world (\<lambda>n. if n = 0 then 5 else 3) :: val world))))
     < hd (snd (stacks time_tracker
         (examples_world (\<lambda>n. if n = 0 then 5 else 3) :: val world)))"
  by (simp add: examples_defs stacks_def run_defs)

section \<open>Instancing modes\<close>

lemma frame_stacks_enter:
  assumes "{entering_times t, total_times t} \<inter> {entering_times self, total_times self} = {}"
  shows "stacks t (enter self w) = stacks t w"
  using assms by (simp add: stacks_def frame_enter)

lemma frame_stacks_exit:
  assumes "{entering_times t, total_times t} \<inter> {entering_times self, total_times self} = {}"
  shows "stacks t (snd (exit self fn_name pos kw w)) = stacks t w"
  using assms by (simp add: stacks_def frame_exit)

lemma isolated_disjoint:
  assumes "wf_tracker t w0"
  shows "{entering_times t, total_times t} \<inter>
         {entering_times (fst (init lg dtt True w0)), total_times (fst (init lg dtt True w0))} = {}"
    and "{entering_times (fst (init lg dtt True w0)), total_times (fst (init lg dtt True w0))} \<inter>
         {entering_times t, total_times t} = {}"
  using assms by (auto simp: init_def wf_tracker_def)

lemma init_isolated_fresh:
  "wf_tracker (fst (init lg dtt True w0)) (snd (init lg dtt True w0))"
  "a < length (heap w0) \<Longrightarrow> heap (snd (init lg dtt True w0)) ! a = heap w0 ! a"
  by (simp_all add: init_def wf_tracker_def nth_append)

lemma init_shared:
  "entering_times (fst (init lg dtt False w)) = time_tracker_global_entering_times"
  "total_times (fst (init lg dtt False w)) = time_tracker_global_total_times"
  "snd (init lg dtt False w) = w"
  by (simp_all add: init_def)

lemma shared_wf:
  "2 \<le> length (heap w0) \<Longrightarrow> wf_tracker (fst (init lg dtt False w)) w0"
  by (auto simp: init_def wf_tracker_def time_tracker_global_entering_times_def
      time_tracker_global_total_times_def)

lemma same_stacks_enter:
  assumes "wf_tracker t1 w" and "wf_tracker t2 w" and "stacks t1 w = stacks t2 w"
  shows "stacks t1 (enter t1 w) = stacks t2 (enter t2 w)"
    and "reads (enter t1 w) = reads (enter t2 w)"
    and "logged (enter t1 w) = logged (enter t2 w)"
  using assms by (simp_all add: stacks_enter) (simp_all add: enter_eq)

lemma same_stacks_exit:
  assumes wf1: "wf_tracker t1 w" and wf2: "wf_tracker t2 w" and inv: "length_invariant t1 w"
    and same: "stacks t1 w = stacks t2 w"
  shows "stacks t1 (snd (exit t1 fn_name pos kw w)) = stacks t2 (snd (exit t2 fn_name pos kw w))"
    and "logged (snd (exit t1 fn_name pos kw w)) = logged (snd (exit t2 fn_name pos kw w))"
    and "reads (snd (exit t1 fn_name pos kw w)) = reads (snd (exit t2 fn_name pos kw w))"
    and "(\<forall>w w' m. logger t1 w m = logger t2 w' m) \<Longrightarrow>
         fst (exit t1 fn_name pos kw w) = fst (exit t2 fn_name pos kw w)"
proof -
  have "stacks t1 (snd (exit t1 fn_name pos kw w)) = stacks t2 (snd (exit t2 fn_name pos kw w)) \<and>
    logged (snd (exit t1 fn_name pos kw w)) = logged (snd (exit t2 fn_name pos kw w)) \<and>
    reads (snd (exit t1 fn_name pos kw w)) = reads (snd (exit t2 fn_name pos kw w)) \<and>
    ((\<forall>w w' m. logger t1 w m = logger t2 w' m) \<longrightarrow>
         fst (exit t1 fn_name pos kw w) = fst (exit t2 fn_name pos kw w))"
  proof (cases "fst (stacks t1 w) = []")
    case True
    with same have "fst (stacks t2 w) = []" by simp
    with True same show ?thesis
      by (simp add: stacks_def exit_empty)
  next
    case False
    with inv obtain es e ts p c
      where S1: "stacks t1 w = (es @ [e], ts @ [p, c])"
      by (rule split_stacks')
    with same have S2: "stacks t2 w = (es @ [e], ts @ [p, c])"
      by simp
    from S1 have E1: "heap w ! entering_times t1 = es @ [e]"
      and T1: "heap w ! total_times t1 = ts @ [p, c]"
      by (simp_all add: stacks_def)
    from S2 have E2: "heap w ! entering_times t2 = es @ [e]"
      and T2: "heap w ! total_times t2 = ts @ [p, c]"
      by (simp_all add: stacks_def)
    note X1 = stacks_exit_nonempty [OF wf1 S1, of fn_name pos kw]
    note X2 = stacks_exit_nonempty [OF wf2 S2, of fn_name pos kw]
    have "fst (exit t1 fn_name pos kw w) = fst (exit t2 fn_name pos kw w)"
      if "\<forall>w w' m. logger t1 w m = logger t2 w' m"
    proof -
      let ?m = "\<lparr>function_name = fn_name, args = pos, kwargs = kw,
                 total_time = clock w (reads w) - e,
                 partial_time = clock w (reads w) - e - c\<rparr>"
      let ?p1 = "w\<lparr>reads := Suc (reads w),
                   heap := (heap w)[entering_times t1 := es,
                              total_times t1 := ts @ [p + (clock w (reads w) - e)]]\<rparr>"
      let ?p2 = "w\<lparr>reads := Suc (reads w),
                   heap := (heap w)[entering_times t2 := es,
                              total_times t2 := ts @ [p + (clock w (reads w) - e)]]\<rparr>"
      from that have "logger t1 ?p1 ?m = logger t2 ?p2 ?m"
        by blast
      then show ?thesis
        by (simp add: exit_nonempty [OF wf1 E1 T1] exit_nonempty [OF wf2 E2 T2] fst_logger_log)
    qed
    with X1 X2 show ?thesis
      by simp
  qed
  then show "stacks t1 (snd (exit t1 fn_name pos kw w)) = stacks t2 (snd (exit t2 fn_name pos kw w))"
    and "logged (snd (exit t1 fn_name pos kw w)) = logged (snd (exit t2 fn_name pos kw w))"
    and "reads (snd (exit t1 fn_name pos kw w)) = reads (snd (exit t2 fn_name pos kw w))"
    and "(\<forall>w w' m. logger t1 w m = logger t2 w' m) \<Longrightarrow>
         fst (exit t1 fn_name pos kw w) = fst (exit t2 fn_name pos kw w)"
    by blast+
qed

text \<open>
  Claim C8.  The mode is chosen by \<open>__init__\<close> and shows only in which lists the tracker
  refers to; no operation changes that.
  \<^item> Isolated: the constructor allocates two new lists, \<open>[]\<close> and \<open>[0]\<close>, and leaves every
    existing list as it is.  For every tracker \<open>t\<close> whose lists existed then, \<open>_enter\<close> and
    \<open>_exit\<close> of the new tracker leave the stacks of \<open>t\<close> unchanged and those of \<open>t\<close> leave
    the new tracker's stacks unchanged; the same holds for the module's shared stacks.
  \<^item> Shared: the constructor allocates nothing, and any two shared trackers refer to the
    same two module-level lists, so after \<open>_enter\<close> or \<open>_exit\<close> of one the other sees
    exactly the stacks the first one sees.
  \<^item> Same semantics: two trackers that find the same stacks, whatever lists back them,
    leave the same stacks and log the same record, and, with loggers that answer alike,
    have the same outcome.
\<close>

theorem instancing_modes:
    "wf_tracker (fst (init lg dtt True w0)) (snd (init lg dtt True w0)) \<and>
     stacks (fst (init lg dtt True w0)) (snd (init lg dtt True w0)) = ([], [0]) \<and>
     (\<forall>a < length (heap w0). heap (snd (init lg dtt True w0)) ! a = heap w0 ! a) \<and>
     (wf_tracker t w0 \<longrightarrow>
        stacks t (enter (fst (init lg dtt True w0)) w) = stacks t w \<and>
        stacks t (snd (exit (fst (init lg dtt True w0)) fn_name pos kw w)) = stacks t w \<and>
        stacks (fst (init lg dtt True w0)) (enter t w) = stacks (fst (init lg dtt True w0)) w \<and>
        stacks (fst (init lg dtt True w0)) (snd (exit t fn_name pos kw w))
          = stacks (fst (init lg dtt True w0)) w) \<and>
     (2 \<le> length (heap w0) \<longrightarrow>
        stacks (fst (init lg1 dtt1 False w1)) (enter (fst (init lg dtt True w0)) w)
          = stacks (fst (init lg1 dtt1 False w1)) w \<and>
        stacks (fst (init lg1 dtt1 False w1)) (snd (exit (fst (init lg dtt True w0)) fn_name pos kw w))
          = stacks (fst (init lg1 dtt1 False w1)) w) \<and>
     snd (init lg1 dtt1 False w1) = w1 \<and>
     entering_times (fst (init lg1 dtt1 False w1)) = entering_times (fst (init lg2 dtt2 False w2)) \<and>
     total_times (fst (init lg1 dtt1 False w1)) = total_times (fst (init lg2 dtt2 False w2)) \<and>
     stacks (fst (init lg2 dtt2 False w2)) (enter (fst (init lg1 dtt1 False w1)) w)
       = stacks (fst (init lg1 dtt1 False w1)) (enter (fst (init lg1 dtt1 False w1)) w) \<and>
     stacks (fst (init lg2 dtt2 False w2)) (snd (exit (fst (init lg1 dtt1 False w1)) fn_name pos kw w))
       = stacks (fst (init lg1 dtt1 False w1))
           (snd (exit (fst (init lg1 dtt1 False w1)) fn_name pos kw w)) \<and>
     (wf_tracker t1 w \<and> wf_tracker t2 w \<and> length_invariant t1 w \<and> stacks t1 w = stacks t2 w \<longrightarrow>
        stacks t1 (enter t1 w) = stacks t2 (enter t2 w) \<and>
        stacks t1 (snd (exit t1 fn_name pos kw w)) = stacks t2 (snd (exit t2 fn_name pos kw w)) \<and>
        logged (snd (exit t1 fn_name pos kw w)) = logged (snd (exit t2 fn_name pos kw w)) \<and>
        ((\<forall>w w' m. logger t1 w m = logger t2 w' m) \<longrightarrow>
           fst (exit t1 fn_name pos kw w) = fst (exit t2 fn_name pos kw w)))"
proof -
  let ?ti = "fst (init lg dtt True w0)"
  let ?g1 = "fst (init lg1 dtt1 False w1)" and ?g2 = "fst (init lg2 dtt2 False w2)"
  have other: "stacks t (enter ?ti w) = stacks t w \<and>
        stacks t (snd (exit ?ti fn_name pos kw w)) = stacks t w \<and>
        stacks ?ti (enter t w) = stacks ?ti w \<and>
        stacks ?ti (snd (exit t fn_name pos kw w)) = stacks ?ti w"
    if "wf_tracker t w0" for t :: "'a TimeTracker"
    using isolated_disjoint [OF that, of lg dtt]
    by (simp add: frame_stacks_enter frame_stacks_exit)
  have shared: "stacks ?g1 (enter ?ti w) = stacks ?g1 w \<and>
        stacks ?g1 (snd (exit ?ti fn_name pos kw w)) = stacks ?g1 w"
    if "2 \<le> length (heap w0)"
    using other [OF shared_wf [OF that, of lg1 dtt1 w1]] by simp
  have same_lists: "stacks ?g2 w' = stacks ?g1 w'" for w'
    by (simp add: stacks_def init_shared)
  have sem: "stacks t1 (enter t1 w) = stacks t2 (enter t2 w) \<and>
        stacks t1 (snd (exit t1 fn_name pos kw w)) = stacks t2 (snd (exit t2 fn_name pos kw w)) \<and>
        logged (snd (exit t1 fn_name pos kw w)) = logged (snd (exit t2 fn_name pos kw w)) \<and>
        ((\<forall>w w' m. logger t1 w m = logger t2 w' m) \<longrightarrow>
           fst (exit t1 fn_name pos kw w) = fst (exit t2 fn_name pos kw w))"
    if "wf_tracker t1 w \<and> wf_tracker t2 w \<and> length_invariant t1 w \<and> stacks t1 w = stacks t2 w"
    using that same_stacks_enter(1) [of t1 w t2]
      same_stacks_exit [of t1 w t2 fn_name pos kw]
    by blast
  from other shared same_lists sem show ?thesis
    by (intro conjI impI allI)
      (simp_all add: init_isolated_fresh stacks_init_isolated init_shared)
qed

theorem instancing_modes_witness:
  "wf_tracker (fst (init Logger True False (module_init (\<lambda>n. real (n div 2)) :: val world)))
     (module_init (\<lambda>n. real (n div 2))) \<and>
   (2::nat) \<le> length (heap (module_init (\<lambda>n. real (n div 2)) :: val world)) \<and>
   (0::nat) < length (heap (module_init (\<lambda>n. real (n div 2)) :: val world)) \<and>
   heap (snd (init Logger True True (module_init (\<lambda>n. real (n div 2)) :: val world))) ! 0 = [] \<and>
   stacks (fst (init Logger True False (module_init (\<lambda>n. real (n div 2)) :: val world)))
     (enter (fst (init Logger True True (module_init (\<lambda>n. real (n div 2)))))
        (enter (fst (init Logger True True (module_init (\<lambda>n. real (n div 2)))))
          (enter (fst (init Logger True False (module_init (\<lambda>n. real (n div 2)))))
             (snd (init Logger True True (module_init (\<lambda>n. real (n div 2))))))))
     = ([0], [0, 0]) \<and>
   wf_tracker (fst (init Logger True True (module_init (\<lambda>n. real (n div 2)) :: val world)))
     (enter (fst (init Logger True True (module_init (\<lambda>n. real (n div 2)))))
        (enter (fst (init Logger True False (module_init (\<lambda>n. real (n div 2)))))
           (snd (init Logger True True (module_init (\<lambda>n. real (n div 2))))))) \<and>
   wf_tracker (fst (init Logger True False (module_init (\<lambda>n. real (n div 2)) :: val world)))
     (enter (fst (init Logger True True (module_init (\<lambda>n. real (n div 2)))))
        (enter (fst (init Logger True False (module_init (\<lambda>n. real (n div 2)))))
           (snd (init Logger True True (module_init (\<lambda>n. real (n div 2))))))) \<and>
   length_invariant (fst (init Logger True True (module_init (\<lambda>n. real (n div 2)) :: val world)))
     (enter (fst (init Logger True True (module_init (\<lambda>n. real (n div 2)))))
        (enter (fst (init Logger True False (module_init (\<lambda>n. real (n div 2)))))
           (snd (init Logger True True (module_init (\<lambda>n. real (n div 2))))))) \<and>
   stacks (fst (init Logger True True (module_init (\<lambda>n. real (n div 2)) :: val world)))
     (enter (fst (init Logger True True (module_init (\<lambda>n. real (n div 2)))))
        (enter (fst (init Logger True False (module_init (\<lambda>n. real (n div 2)))))
           (snd (init Logger True True (module_init (\<lambda>n. real (n div 2)))))))
     = stacks (fst (init Logger True False (module_init (\<lambda>n. real (n div 2)) :: val world)))
     (enter (fst (init Logger True True (module_init (\<lambda>n. real (n div 2)))))
        (enter (fst (init Logger True False (module_init (\<lambda>n. real (n div 2)))))
           (snd (init Logger True True (module_init (\<lambda>n. real (n div 2))))))) \<and>
   stacks (fst (init Logger True True (module_init (\<lambda>n. real (n div 2)) :: val world)))
     (snd (exit (fst (init Logger True True (module_init (\<lambda>n. real (n div 2))))) ''f'' [] []
     (enter (fst (init Logger True True (module_init (\<lambda>n. real (n div 2)))))
        (enter (fst (init Logger True False (module_init (\<lambda>n. real (n div 2)))))
           (snd (init Logger True True (module_init (\<lambda>n. real (n div 2)))))))))
     = stacks (fst (init Logger True False (module_init (\<lambda>n. real (n div 2)) :: val world)))
     (snd (exit (fst (init Logger True False (module_init (\<lambda>n. real (n div 2))))) ''f'' [] []
     (enter (fst (init Logger True True (module_init (\<lambda>n. real (n div 2)))))
        (enter (fst (init Logger True False (module_init (\<lambda>n. real (n div 2)))))
           (snd (init Logger True True (module_init (\<lambda>n. real (n div 2))))))))) \<and>
   fst (exit (fst (init Logger True True (module_init (\<lambda>n. real (n div 2)) :: val world))) ''f'' [] []
     (enter (fst (init Logger True True (module_init (\<lambda>n. real (n div 2)))))
        (enter (fst (init Logger True False (module_init (\<lambda>n. real (n div 2)))))
           (snd (init Logger True True (module_init (\<lambda>n. real (n div 2))))))))
     = fst (exit (fst (init Logger True False (module_init (\<lambda>n. real (n div 2)) :: val world))) ''f'' [] []
     (enter (fst (init Logger True True (module_init (\<lambda>n. real (n div 2)))))
        (enter (fst (init Logger True False (module_init (\<lambda>n. real (n div 2)))))
           (snd (init Logger True True (module_init (\<lambda>n. real (n div 2))))))))"
proof -
  let ?c = "\<lambda>n. real (n div 2)"
  let ?start = "module_init ?c :: val world"
  let ?ti = "fst (init Logger True True ?start)"
  let ?g = "fst (init Logger True False ?start)"
  let ?w = "enter ?ti (enter ?g (snd (init Logger True True ?start)))"
  have wfg0: "wf_tracker ?g ?start"
    by (simp add: init_def module_init_def wf_tracker_def
        time_tracker_global_entering_times_def time_tracker_global_total_times_def)
  have two: "(2::nat) \<le> length (heap ?start)"
    by (simp add: module_init_def)
  have zero: "(0::nat) < length (heap ?start)"
    by (simp add: module_init_def)
  have "wf_tracker ?ti (snd (init Logger True True ?start))"
    by (simp add: init_def module_init_def wf_tracker_def)
  then have wfi: "wf_tracker ?ti ?w"
    by (intro wf_tracker_enter)
  have "wf_tracker ?g (snd (init Logger True True ?start))"
    by (simp add: init_def module_init_def wf_tracker_def
        time_tracker_global_entering_times_def time_tracker_global_total_times_def)
  then have wfg: "wf_tracker ?g ?w"
    by (intro wf_tracker_enter)
  have si: "stacks ?ti ?w = ([0], [0, 0])"
    by (simp add: init_def module_init_def stacks_def run_defs
        time_tracker_global_entering_times_def time_tracker_global_total_times_def)
  have sg: "stacks ?g ?w = ([0], [0, 0])"
    by (simp add: init_def module_init_def stacks_def run_defs
        time_tracker_global_entering_times_def time_tracker_global_total_times_def)
  have inv: "length_invariant ?ti ?w"
    using si by (simp add: length_invariant_stacks)
  have same: "stacks ?ti ?w = stacks ?g ?w"
    using si sg by simp
  have lg: "\<forall>w w' m. logger ?ti w m = logger ?g w' m"
    by (simp add: init_def Logger_def)
  note t = instancing_modes [of Logger True ?start ?g ?w "''f''" "[]" "[]" Logger True ?start
      Logger True ?start ?ti ?g]
  from t have 1: "\<forall>a < length (heap ?start). heap (snd (init Logger True True ?start)) ! a = heap ?start ! a"
    by blast
  from 1 [rule_format, OF zero] have a: "heap (snd (init Logger True True ?start)) ! 0 = []"
    by (simp add: module_init_def)
  from t wfg0 have "stacks ?g (enter ?ti ?w) = stacks ?g ?w"
    by blast
  with sg have b: "stacks ?g (enter ?ti ?w) = ([0], [0, 0])"
    by simp
  from t wfi wfg inv same
  have c: "stacks ?ti (snd (exit ?ti ''f'' [] [] ?w)) = stacks ?g (snd (exit ?g ''f'' [] [] ?w))"
    and d: "(\<forall>w w' m. logger ?ti w m = logger ?g w' m) \<longrightarrow>
       fst (exit ?ti ''f'' [] [] ?w) = fst (exit ?g ''f'' [] [] ?w)"
    by blast+
  from d lg have e: "fst (exit ?ti ''f'' [] [] ?w) = fst (exit ?g ''f'' [] [] ?w)"
    by blast
  from wfg0 two zero a b wfi wfg inv same c e show ?thesis
    by blast
qed

end
